theory Spec2Isabelle
  imports Complex_Main
begin

section \<open>JavaScript numbers\<close>

text \<open>
  The values of the command-line flags, the byte counts of the progress events and the
  clock readings are JavaScript numbers. A finite number is modelled by the rational it
  denotes (the rounding of the double arithmetic is not modelled, and the two zeros are
  not told apart); the three special values are kept, since the program meets them:
  \<^verbatim>\<open>Infinity\<close> is the default of \<^verbatim>\<open>--limit\<close>, and
  \<^verbatim>\<open>NaN\<close> is what \<^verbatim>\<open>parseInt\<close> and a division
  \<^verbatim>\<open>0 / 0\<close> return.
\<close>

datatype jsnum = Fin rat | PInf | NInf | NaN

fun js_neg :: "jsnum \<Rightarrow> jsnum" where
  "js_neg (Fin a) = Fin (- a)"
| "js_neg PInf = NInf"
| "js_neg NInf = PInf"
| "js_neg NaN = NaN"

fun js_add :: "jsnum \<Rightarrow> jsnum \<Rightarrow> jsnum" where
  "js_add NaN _ = NaN"
| "js_add _ NaN = NaN"
| "js_add (Fin a) (Fin b) = Fin (a + b)"
| "js_add PInf NInf = NaN"
| "js_add NInf PInf = NaN"
| "js_add PInf _ = PInf"
| "js_add _ PInf = PInf"
| "js_add NInf _ = NInf"
| "js_add _ NInf = NInf"

definition js_sub :: "jsnum \<Rightarrow> jsnum \<Rightarrow> jsnum" where
  "js_sub a b = js_add a (js_neg b)"

text \<open>The sign of a number that is not \<^verbatim>\<open>NaN\<close>; zero counts as positive.\<close>

fun js_nonneg :: "jsnum \<Rightarrow> bool" where
  "js_nonneg (Fin a) = (0 \<le> a)"
| "js_nonneg PInf = True"
| "js_nonneg NInf = False"
| "js_nonneg NaN = False"

fun js_mul :: "jsnum \<Rightarrow> jsnum \<Rightarrow> jsnum" where
  "js_mul NaN _ = NaN"
| "js_mul _ NaN = NaN"
| "js_mul (Fin a) (Fin b) = Fin (a * b)"
| "js_mul (Fin a) b = (if a = 0 then NaN else if (0 < a) = js_nonneg b then PInf else NInf)"
| "js_mul a (Fin b) = (if b = 0 then NaN else if (0 < b) = js_nonneg a then PInf else NInf)"
| "js_mul a b = (if js_nonneg a = js_nonneg b then PInf else NInf)"

fun js_div :: "jsnum \<Rightarrow> jsnum \<Rightarrow> jsnum" where
  "js_div NaN _ = NaN"
| "js_div _ NaN = NaN"
| "js_div (Fin a) (Fin b) =
     (if b = 0 then (if a = 0 then NaN else if 0 < a then PInf else NInf)
      else Fin (a / b))"
| "js_div (Fin a) _ = Fin 0"
| "js_div a (Fin b) = (if js_nonneg a = (0 \<le> b) then PInf else NInf)"
| "js_div _ _ = NaN"

text \<open>\<^verbatim>\<open>Math.min(a, b)\<close>.\<close>

fun math_min :: "jsnum \<Rightarrow> jsnum \<Rightarrow> jsnum" where
  "math_min NaN _ = NaN"
| "math_min _ NaN = NaN"
| "math_min NInf _ = NInf"
| "math_min _ NInf = NInf"
| "math_min PInf b = b"
| "math_min a PInf = a"
| "math_min (Fin a) (Fin b) = Fin (min a b)"

definition of_int_js :: "int \<Rightarrow> jsnum" where
  "of_int_js i = Fin (of_int i)"

definition of_nat_js :: "nat \<Rightarrow> jsnum" where
  "of_nat_js n = Fin (of_nat n)"

section \<open>Array.prototype.slice\<close>

text \<open>Truncation towards zero, the finite case of \<^verbatim>\<open>ToIntegerOrInfinity\<close>.\<close>

definition js_trunc :: "rat \<Rightarrow> int" where
  "js_trunc x = (if x < 0 then \<lceil>x\<rceil> else \<lfloor>x\<rfloor>)"

text \<open>
  The position an argument of \<^verbatim>\<open>slice\<close> stands for in an array of
  \<open>len\<close> elements: \<^verbatim>\<open>NaN\<close> is 0, a negative value counts from the end, and
  the result is clamped to \<open>0 .. len\<close>.
\<close>

fun slice_index :: "nat \<Rightarrow> jsnum \<Rightarrow> nat" where
  "slice_index len NaN = 0"
| "slice_index len NInf = 0"
| "slice_index len PInf = len"
| "slice_index len (Fin x) =
     (let r = js_trunc x
      in if r < 0 then nat (max (int len + r) 0) else nat (min r (int len)))"

definition slice :: "'a list \<Rightarrow> jsnum \<Rightarrow> jsnum \<Rightarrow> 'a list" where
  "slice xs start end =
     (let k = slice_index (length xs) start;
          final = slice_index (length xs) end
      in take (final - k) (drop k xs))"

section \<open>The playlist and the selection of the items to download\<close>

record item =
  title :: string
  url :: string

record playlist =
  playlist_title :: string
  estimated_items :: nat
  items :: "item list"

text \<open>
  \<^verbatim>\<open>let actualLimit = Math.min(limit, playlist.estimated_items - offset);\<close>
\<close>

definition actualLimit :: "jsnum \<Rightarrow> jsnum \<Rightarrow> playlist \<Rightarrow> jsnum" where
  "actualLimit limit offset p =
     math_min limit (js_sub (of_nat_js (estimated_items p)) offset)"

text \<open>
  \<^verbatim>\<open>playlist.items.slice(offset, offset + actualLimit)\<close>
\<close>

definition selected_items :: "jsnum \<Rightarrow> jsnum \<Rightarrow> playlist \<Rightarrow> item list" where
  "selected_items limit offset p =
     slice (items p) offset (js_add offset (actualLimit limit offset p))"

text \<open>
  The values the flags \<^verbatim>\<open>--offset\<close> and \<^verbatim>\<open>--limit\<close> are meant
  to take: a natural number, and for the limit also the default \<^verbatim>\<open>Infinity\<close>.
\<close>

definition limit_js :: "nat option \<Rightarrow> jsnum" where
  "limit_js lmt = (case lmt of None \<Rightarrow> PInf | Some l \<Rightarrow> of_nat_js l)"

text \<open>
  The number of jobs the specification gives for a list of \<open>itemCount\<close> items:
  \<^verbatim>\<open>max(0, min(limit, itemCount - offset))\<close>.
\<close>

definition spec_scheduled_count :: "nat option \<Rightarrow> nat \<Rightarrow> nat \<Rightarrow> int" where
  "spec_scheduled_count lmt itemCount off =
     max 0 (case lmt of None \<Rightarrow> int itemCount - int off
            | Some l \<Rightarrow> min (int l) (int itemCount - int off))"

section \<open>Errors\<close>

text \<open>
  What the program throws and catches are objects whose \<^verbatim>\<open>code\<close> is absent,
  a number (the 400 and 404 of \<^verbatim>\<open>getPLaylist\<close>) or the name of a system
  error; \<^verbatim>\<open>err\<close> is the wrapped cause that \<^verbatim>\<open>getPLaylist\<close> attaches.
  The message of a system error is reduced to the path it is about.
\<close>

datatype errno = EEXIST | ENOENT | EACCES | EPERM | EISDIR | ENOTDIR | EROFS | ENOSPC | EIO

datatype errcode = NoCode | NumCode int | ErrnoCode errno

datatype js_error = Err (code: errcode) (message: string) (err: "js_error option")

text \<open>\<^verbatim>\<open>error.code == 404\<close>: no name of a system error converts to a number.\<close>

definition code_is_404 :: "js_error \<Rightarrow> bool" where
  "code_is_404 error = (code error = NumCode 404)"

section \<open>getPLaylist\<close>

text \<open>
  \<open>ytpl\<close> is the playlist resolver of the \<^verbatim>\<open>ytpl\<close> package: the playlist of a
  link, or the error it rejects with. A link is a string, so \<^verbatim>\<open>!playlistLink\<close>
  holds of the empty string only.
\<close>

definition getPLaylist :: "(string \<Rightarrow> js_error + playlist) \<Rightarrow> string \<Rightarrow> js_error + playlist" where
  "getPLaylist ytpl playlistLink =
     (if playlistLink = [] then Inl (Err (NumCode 400) ''No playlist link provided'' None)
      else case ytpl playlistLink of
             Inr pl \<Rightarrow> Inr pl
           | Inl e \<Rightarrow> Inl (Err (NumCode 404) ''Playlist link or id not found'' (Some e)))"

section \<open>Paths\<close>

text \<open>
  Node's \<^verbatim>\<open>path\<close> module on a POSIX system, where \<^verbatim>\<open>path.sep\<close> is
  \<^verbatim>\<open>/\<close>. \<open>split_sep\<close> is \<^verbatim>\<open>s.split(path.sep)\<close>: the empty string
  splits into one empty segment.
\<close>

fun split_sep :: "string \<Rightarrow> string list" where
  "split_sep [] = [[]]"
| "split_sep (c # cs) =
     (if c = CHR ''/'' then [] # split_sep cs
      else case split_sep cs of
             [] \<Rightarrow> [[c]]
           | w # ws \<Rightarrow> (c # w) # ws)"

fun join_sep :: "string list \<Rightarrow> string" where
  "join_sep [] = []"
| "join_sep [w] = w"
| "join_sep (w # ws) = w @ CHR ''/'' # join_sep ws"

definition isAbsolute :: "string \<Rightarrow> bool" where
  "isAbsolute p = (case p of [] \<Rightarrow> False | c # _ \<Rightarrow> c = CHR ''/'')"

text \<open>
  \<^verbatim>\<open>normalizeString\<close> on the segments of a path, the segments kept so far in
  \<open>acc\<close>: empty segments and \<^verbatim>\<open>.\<close> are dropped, \<^verbatim>\<open>..\<close> removes the
  segment before it, and is kept only where the path may rise above its start.
\<close>

fun normalizeString :: "bool \<Rightarrow> string list \<Rightarrow> string list \<Rightarrow> string list" where
  "normalizeString allowAboveRoot acc [] = acc"
| "normalizeString allowAboveRoot acc (seg # segs) =
     (if seg = [] \<or> seg = ''.'' then normalizeString allowAboveRoot acc segs
      else if seg = ''..'' then
        (if acc \<noteq> [] \<and> last acc \<noteq> ''..'' then normalizeString allowAboveRoot (butlast acc) segs
         else if allowAboveRoot then normalizeString allowAboveRoot (acc @ [seg]) segs
         else normalizeString allowAboveRoot acc segs)
      else normalizeString allowAboveRoot (acc @ [seg]) segs)"

text \<open>A segment as a normalised absolute path has them: a name without separator.\<close>

definition plain_segment :: "string \<Rightarrow> bool" where
  "plain_segment seg = (seg \<noteq> [] \<and> seg \<noteq> ''.'' \<and> seg \<noteq> ''..'' \<and> CHR ''/'' \<notin> set seg)"

text \<open>
  \<^verbatim>\<open>path.resolve(...args)\<close> in the working directory \<open>cwd\<close> (an absolute path):
  the arguments are taken from the right up to the first absolute one, the working
  directory standing before them all.
\<close>

fun from_last_absolute :: "string list \<Rightarrow> string list" where
  "from_last_absolute [] = []"
| "from_last_absolute (p # ps) =
     (if \<exists>q \<in> set ps. isAbsolute q then from_last_absolute ps else p # ps)"

definition path_resolve :: "string \<Rightarrow> string list \<Rightarrow> string" where
  "path_resolve cwd args =
     CHR ''/'' # join_sep (normalizeString False []
                   (concat (map split_sep (from_last_absolute (cwd # args)))))"

text \<open>\<^verbatim>\<open>path.normalize\<close> and \<^verbatim>\<open>path.join\<close>.\<close>

definition path_normalize :: "string \<Rightarrow> string" where
  "path_normalize p =
     (if p = [] then ''.''
      else let abs = isAbsolute p;
               trailingSeparator = (last p = CHR ''/'');
               q = join_sep (normalizeString (\<not> abs) [] (split_sep p))
           in if q = [] then (if abs then ''/'' else if trailingSeparator then ''./'' else ''.'')
              else (if abs then ''/'' else []) @ q @ (if trailingSeparator then ''/'' else []))"

definition path_join :: "string list \<Rightarrow> string" where
  "path_join args =
     (let joined = join_sep (filter (\<lambda>a. a \<noteq> []) args)
      in if joined = [] then ''.'' else path_normalize joined)"

section \<open>mkDirByPathSync\<close>

text \<open>
  \<open>mkdirSync\<close> is \<^verbatim>\<open>fs.mkdirSync\<close> as the file system of the run answers it:
  \<open>None\<close> when the directory was created, the name of the system error otherwise.
  (A second call on a path just created answers \<^verbatim>\<open>EEXIST\<close>; the function below
  returns \<open>curDir\<close> on both answers.)
\<close>

definition system_error :: "errno \<Rightarrow> string \<Rightarrow> js_error" where
  "system_error c p = Err (ErrnoCode c) (''mkdir '' @ p) None"

text \<open>
  One round of the \<^verbatim>\<open>reduce\<close>. An exception ends the reduction, so a round
  that starts from \<open>Inl\<close> does nothing. \<open>main\<close> never passes
  \<^verbatim>\<open>isRelativeToScript\<close>, so \<^verbatim>\<open>baseDir\<close> is \<^verbatim>\<open>'.'\<close>.
\<close>

definition mkdir_round ::
  "(string \<Rightarrow> errno option) \<Rightarrow> string \<Rightarrow> string \<Rightarrow> js_error + string \<Rightarrow> string \<Rightarrow> js_error + string" where
  "mkdir_round mkdirSync cwd targetDir acc childDir =
     (case acc of
        Inl thrown \<Rightarrow> Inl thrown
      | Inr parentDir \<Rightarrow>
          let curDir = path_resolve cwd [''.'', parentDir, childDir]
          in case mkdirSync curDir of
               None \<Rightarrow> Inr curDir
             | Some c \<Rightarrow>
                 if c = EEXIST then Inr curDir
                 else if c = ENOENT then
                   Inl (Err NoCode (''EACCES: permission denied, mkdir '' @ [CHR 0x27] @ parentDir @ [CHR 0x27]) None)
                 else let caughtErr = (c \<in> set [EACCES, EPERM, EISDIR])
                      in if \<not> caughtErr \<or> (caughtErr \<and> curDir = path_resolve cwd [targetDir])
                         then Inl (system_error c curDir)
                         else Inr curDir)"

definition mkDirByPathSync :: "(string \<Rightarrow> errno option) \<Rightarrow> string \<Rightarrow> string \<Rightarrow> js_error + string" where
  "mkDirByPathSync mkdirSync cwd targetDir =
     (let initDir = (if isAbsolute targetDir then ''/'' else [])
      in foldl (mkdir_round mkdirSync cwd targetDir) (Inr initDir) (split_sep targetDir))"

section \<open>downloadVideo\<close>

text \<open>
  \<^verbatim>\<open>x.toFixed(2)\<close>: the sign, then the integer nearest to \<open>100 * |x|\<close> (the
  larger one of two) written with two decimals. The value rounded is the exact one, so
  the last digit can differ from the code's where the double is not the exact value
  and lies on the other side of a tie. (From \<open>10^21\<close> on JavaScript switches to the
  exponent notation, which is not modelled; no byte count or duration comes near.)
\<close>

fun digits :: "nat \<Rightarrow> string" where
  "digits n = (if n < 10 then [''0123456789'' ! n] else digits (n div 10) @ [''0123456789'' ! (n mod 10)])"

declare digits.simps [simp del]

fun toFixed2 :: "jsnum \<Rightarrow> string" where
  "toFixed2 NaN = ''NaN''"
| "toFixed2 PInf = ''Infinity''"
| "toFixed2 NInf = ''-Infinity''"
| "toFixed2 (Fin x) =
     (let n = nat \<lfloor>\<bar>x\<bar> * 100 + 1 / 2\<rfloor>
      in (if x < 0 then ''-'' else []) @ digits (n div 100) @ ''.''
           @ digits (n mod 100 div 10) @ digits (n mod 10))"

text \<open>
  The text of the \<^verbatim>\<open>progress\<close> handler. \<open>now\<close> is \<^verbatim>\<open>Date.now()\<close>;
  \<open>starttime\<close> is \<open>None\<close> while no \<^verbatim>\<open>response\<close> event has set it, and
  arithmetic on \<^verbatim>\<open>undefined\<close> gives \<^verbatim>\<open>NaN\<close>.
\<close>

definition to_number :: "int option \<Rightarrow> jsnum" where
  "to_number v = (case v of None \<Rightarrow> NaN | Some i \<Rightarrow> of_int_js i)"

definition progress_text :: "string \<Rightarrow> int \<Rightarrow> int option \<Rightarrow> jsnum \<Rightarrow> jsnum \<Rightarrow> string" where
  "progress_text downloadText now starttime downloaded total' =
     (let percent = js_div downloaded total';
          downloadedMinutes = js_div (js_div (js_sub (of_int_js now) (to_number starttime)) (Fin 1000)) (Fin 60);
          estimatedDownloadTime = js_sub (js_div downloadedMinutes percent) downloadedMinutes
      in downloadText
         @ '', Completed: '' @ toFixed2 (js_mul percent (Fin 100)) @ ''%''
         @ '', '' @ toFixed2 (js_div (js_div downloaded (Fin 1024)) (Fin 1024)) @ ''MB of ''
         @ toFixed2 (js_div (js_div total' (Fin 1024)) (Fin 1024)) @ ''MB''
         @ '', estimated time left: '' @ toFixed2 estimatedDownloadTime @ ''minutes'')"

text \<open>
  A job is an item with the directory it is written to. The file the stream is piped
  into is \<^verbatim>\<open>path.join(outputDir, `${title}.mp4`)\<close>.
\<close>

record job = item +
  outputDir :: string

definition destination :: "job \<Rightarrow> string" where
  "destination j = path_join [outputDir j, title j @ ''.mp4'']"

text \<open>
  The events of the two streams of a download, in the order they are emitted: those of
  the stream \<^verbatim>\<open>ytdl(url)\<close>, with the clock reading where the handler takes one
  (\<open>Progress now chunkLength downloaded total'\<close>), and \<open>FileError\<close>, the
  \<^verbatim>\<open>error\<close> event of the file stream
  \<^verbatim>\<open>fs.createWriteStream(...)\<close> the download is piped into.
\<close>

datatype stream_event =
    Response int
  | Progress int jsnum jsnum jsnum
  | End
  | Error js_error
  | FileError js_error

datatype promise = Pending | Resolved string | Rejected js_error

datatype spin_status = Spinning | Succeed | Fail

text \<open>
  The state of one call: the promise it returned, \<open>starttime\<close>, the line of the
  progress reporter, and the error that has killed the process, if one has.
\<close>

record download =
  result :: promise
  starttime :: "int option"
  status :: spin_status
  spin_text :: string
  uncaught :: "js_error option"

text \<open>\<^verbatim>\<open>resolve\<close> and \<^verbatim>\<open>reject\<close> act on a pending promise only.\<close>

definition settle_promise :: "promise \<Rightarrow> promise \<Rightarrow> promise" where
  "settle_promise p outcome = (if p = Pending then outcome else p)"

text \<open>
  The four handlers. \<^verbatim>\<open>response\<close> is registered with \<^verbatim>\<open>once\<close>, so
  only the first one sets \<open>starttime\<close>; \<^verbatim>\<open>spinnies.update\<close> sets the line
  spinning again. Nothing listens to the \<^verbatim>\<open>error\<close> event of the file stream:
  Node throws it, which kills the process, the promise left as it is.
\<close>

fun handlers :: "string \<Rightarrow> download \<Rightarrow> stream_event \<Rightarrow> download" where
  "handlers ttl d (Response now) =
     d\<lparr>starttime := (case starttime d of None \<Rightarrow> Some now | Some t \<Rightarrow> Some t)\<rparr>"
| "handlers ttl d (Progress now chunkLength downloaded total') =
     d\<lparr>status := Spinning,
       spin_text := progress_text (''Downloading '' @ ttl) now (starttime d) downloaded total'\<rparr>"
| "handlers ttl d End =
     d\<lparr>status := Succeed, spin_text := ''Finished downloading '' @ ttl,
       result := settle_promise (result d) (Resolved (''Finished downloading '' @ ttl))\<rparr>"
| "handlers ttl d (Error e) =
     d\<lparr>status := Fail, spin_text := ''Failed to download '' @ ttl,
       result := settle_promise (result d) (Rejected e)\<rparr>"
| "handlers ttl d (FileError e) = d\<lparr>uncaught := Some e\<rparr>"

text \<open>No event is handled once the process is killed.\<close>

definition on_event :: "string \<Rightarrow> download \<Rightarrow> stream_event \<Rightarrow> download" where
  "on_event ttl d ev = (case uncaught d of None \<Rightarrow> handlers ttl d ev | Some _ \<Rightarrow> d)"

definition downloadVideo :: "job \<Rightarrow> stream_event list \<Rightarrow> download" where
  "downloadVideo j events =
     foldl (on_event (title j))
       \<lparr>result = Pending, starttime = None, status = Spinning,
          spin_text = ''Downloading '' @ title j, uncaught = None\<rparr>
       events"

text \<open>The events that settle the promise, and those of the file stream.\<close>

fun terminal :: "stream_event \<Rightarrow> bool" where
  "terminal End = True"
| "terminal (Error e) = True"
| "terminal _ = False"

fun file_event :: "stream_event \<Rightarrow> bool" where
  "file_event (FileError e) = True"
| "file_event _ = False"

section \<open>The concurrency limiter\<close>

text \<open>
  Modelled from the spec: the limiter is the \<^verbatim>\<open>p-limit\<close> package, which is not
  part of the sources. Section 4.2: a pool of \<open>concurrency\<close> slots; a task starts at once
  while a slot is free and queues in submission order otherwise; a slot is released
  when its task settles, with success or failure alike, and the next queued task
  starts immediately. A concurrency below 1 is an input error.
\<close>

record 'j limiter =
  active :: "'j list"
  queue :: "'j list"

definition schedule :: "nat \<Rightarrow> 'j \<Rightarrow> 'j limiter \<Rightarrow> 'j limiter" where
  "schedule k j st =
     (if length (active st) < k then st\<lparr>active := active st @ [j]\<rparr>
      else st\<lparr>queue := queue st @ [j]\<rparr>)"

definition settle :: "'j \<Rightarrow> 'j limiter \<Rightarrow> 'j limiter" where
  "settle j st =
     (if j \<in> set (active st) then
        (case queue st of
           [] \<Rightarrow> st\<lparr>active := remove1 j (active st)\<rparr>
         | q # qs \<Rightarrow> st\<lparr>active := remove1 j (active st) @ [q], queue := qs\<rparr>)
      else st)"

datatype 'j limiter_event = Schedule 'j | Settle 'j

fun limiter_step :: "nat \<Rightarrow> 'j limiter \<Rightarrow> 'j limiter_event \<Rightarrow> 'j limiter" where
  "limiter_step k st (Schedule j) = schedule k j st"
| "limiter_step k st (Settle j) = settle j st"

definition pLimit :: "'j limiter" where
  "pLimit = \<lparr>active = [], queue = []\<rparr>"

definition limiter_run :: "nat \<Rightarrow> 'j limiter_event list \<Rightarrow> 'j limiter" where
  "limiter_run k evs = foldl (limiter_step k) pLimit evs"

definition valid_concurrency :: "jsnum \<Rightarrow> bool" where
  "valid_concurrency c =
     (case c of Fin x \<Rightarrow> 1 \<le> x \<and> of_int (js_trunc x) = x | PInf \<Rightarrow> True | _ \<Rightarrow> False)"

section \<open>main\<close>

text \<open>
  The flags as the action receives them, and the collaborators of a run:
  the playlist resolver, the single-item metadata call
  \<^verbatim>\<open>ytdl.getBasicInfo\<close>, the file system (the answer to the creation of a
  directory, and to the opening of a file for writing), the
  \<^verbatim>\<open>sanitize-filename\<close> function, the working directory, the events the
  download stream of a url emits, and the order in which the running downloads reach
  their end (by the index of the job; a job the order leaves out comes after the listed
  ones).
\<close>

record options =
  link :: string
  output_flag :: string
  concurrency :: jsnum
  limit :: jsnum
  offset :: jsnum
  titleDir :: bool

record videoDetails =
  video_title :: string
  video_url :: string

record env =
  ytpl :: "string \<Rightarrow> js_error + playlist"
  getBasicInfo :: "string \<Rightarrow> js_error + videoDetails"
  mkdirSync :: "string \<Rightarrow> errno option"
  createWriteStream :: "string \<Rightarrow> errno option"
  sanitize :: "string \<Rightarrow> string"
  cwd :: string
  ytdl :: "string \<Rightarrow> stream_event list"
  settle_order :: "nat list"

text \<open>
  What the run does, in order. The lines written to the console are kept by their
  template: \<open>PlaylistFound t n\<close> is
  \<^verbatim>\<open>Playlist ${t} Found. Total Items: ${n}\<close>, \<open>DownloadingOnly a o\<close> is
  \<^verbatim>\<open>Downloading only ${a} videos starting from video ${o}...\<close>, \<open>Finished n\<close> is
  \<^verbatim>\<open>Finished downloading ${n} videos.\<close>, \<open>NotFoundTrying\<close> is
  \<^verbatim>\<open>Playlist not found. Trying to download video instead.\<close>
  \<open>Submit j\<close> is \<^verbatim>\<open>plimit(() => downloadVideo(j))\<close>, \<open>Direct j\<close> a call of
  \<^verbatim>\<open>downloadVideo(j)\<close> outside the limiter, and \<open>Uncaught err\<close> the end of the
  process by an error that nothing handles.
\<close>

datatype console = PlaylistFound string nat | DownloadingOnly jsnum jsnum | Finished nat | NotFoundTrying

datatype effect =
    Log console
  | LogError string js_error
  | MkDirByPath string
  | Submit job
  | Direct job
  | GetBasicInfo string
  | Exit nat
  | Uncaught js_error

text \<open>
  The events of a call \<^verbatim>\<open>downloadVideo(j)\<close> in the run. A file that cannot be
  opened is reported at once, before the network answers; the file stream of a file
  that could be opened is taken not to fail later. The download stream emits no event
  of the file stream.
\<close>

definition file_error :: "errno \<Rightarrow> string \<Rightarrow> js_error" where
  "file_error c p = Err (ErrnoCode c) (''open '' @ p) None"

definition job_events :: "env \<Rightarrow> job \<Rightarrow> stream_event list" where
  "job_events e j =
     (case createWriteStream e (destination j) of
        Some c \<Rightarrow> [FileError (file_error c (destination j))]
      | None \<Rightarrow> filter (\<lambda>ev. \<not> file_event ev) (ytdl e (url j)))"

text \<open>
  The promise the call returns, as its events leave it, and the error by which the
  call kills the process.
\<close>

definition job_promise :: "env \<Rightarrow> job \<Rightarrow> promise" where
  "job_promise e j = result (downloadVideo j (job_events e j))"

definition job_uncaught :: "env \<Rightarrow> job \<Rightarrow> js_error option" where
  "job_uncaught e j = uncaught (downloadVideo j (job_events e j))"

text \<open>
  \<^verbatim>\<open>Promise.all\<close>: rejected with the error of the first promise to be rejected,
  fulfilled with all the values, in the order of the promises, once they are all
  fulfilled.
\<close>

fun is_rejected :: "promise \<Rightarrow> bool" where
  "is_rejected (Rejected e) = True"
| "is_rejected _ = False"

fun is_resolved :: "promise \<Rightarrow> bool" where
  "is_resolved (Resolved m) = True"
| "is_resolved _ = False"

fun value_of :: "promise \<Rightarrow> string" where
  "value_of (Resolved m) = m"
| "value_of _ = []"

datatype all_promise = AllPending | AllResolved "string list" | AllRejected js_error

definition promise_all :: "promise list \<Rightarrow> nat list \<Rightarrow> all_promise" where
  "promise_all ps order =
     (case filter is_rejected (map (\<lambda>i. ps ! i) (filter (\<lambda>i. i < length ps) order @ [0 ..< length ps])) of
        Rejected e # _ \<Rightarrow> AllRejected e
      | _ \<Rightarrow> if list_all is_resolved ps then AllResolved (map value_of ps) else AllPending)"

text \<open>
  The \<^verbatim>\<open>catch\<close> block of the action. The inner \<^verbatim>\<open>try\<close> covers the
  metadata call, the creation of the directory and the awaited download; while that
  download is pending nothing more happens, and its file stream can kill the process
  as that of any download.
\<close>

definition main_catch :: "env \<Rightarrow> options \<Rightarrow> js_error \<Rightarrow> effect list" where
  "main_catch e opts error =
     (if code_is_404 error then
        [Log NotFoundTrying, GetBasicInfo (link opts)] @
        (case getBasicInfo e (link opts) of
           Inl ex \<Rightarrow> [LogError ''Error while trying to donwload single video'' ex, Exit 1]
         | Inr info \<Rightarrow>
             MkDirByPath (output_flag opts) #
             (case mkDirByPathSync (mkdirSync e) (cwd e) (output_flag opts) of
                Inl ex \<Rightarrow> [LogError ''Error while trying to donwload single video'' ex, Exit 1]
              | Inr _ \<Rightarrow>
                  (let j = \<lparr>title = video_title info, url = video_url info, outputDir = output_flag opts\<rparr>
                   in Direct j #
                      (case job_uncaught e j of
                         Some ex \<Rightarrow> [Uncaught ex]
                       | None \<Rightarrow>
                           (case job_promise e j of
                              Rejected ex \<Rightarrow> [LogError ''Error while trying to donwload single video'' ex, Exit 1]
                            | _ \<Rightarrow> [])))))
      else [LogError ''Error: '' error])"

text \<open>
  The jobs in the limiter. Each job is kept with its index in the batch. \<open>slots\<close> is
  the number of slots of \<^verbatim>\<open>pLimit(concurrency)\<close> for a valid concurrency:
  with \<^verbatim>\<open>Infinity\<close> every job of the batch has one. \<open>submit_all\<close> is the limiter
  after the \<^verbatim>\<open>map\<close> over the items has submitted every job.
\<close>

definition slots :: "jsnum \<Rightarrow> nat \<Rightarrow> nat" where
  "slots c n = (case c of Fin x \<Rightarrow> nat (js_trunc x) | _ \<Rightarrow> n)"

definition submit_all :: "nat \<Rightarrow> job list \<Rightarrow> (nat \<times> job) limiter" where
  "submit_all k jobs = limiter_run k (map Schedule (enumerate 0 jobs))"

text \<open>The first of the jobs just started whose file cannot be opened kills the process.\<close>

definition first_uncaught :: "env \<Rightarrow> (nat \<times> job) list \<Rightarrow> js_error option" where
  "first_uncaught e started =
     (case List.map_filter (\<lambda>ij. job_uncaught e (snd ij)) started of
        [] \<Rightarrow> None
      | ex # _ \<Rightarrow> Some ex)"

text \<open>
  The running job that settles next: one whose promise does settle, the earliest in
  the order of the run. A running job whose stream never ends keeps its slot.
\<close>

definition next_to_settle :: "env \<Rightarrow> (nat \<times> job) list \<Rightarrow> (nat \<times> job) option" where
  "next_to_settle e running =
     (let ready = filter (\<lambda>ij. job_promise e (snd ij) \<noteq> Pending) running;
          listed = concat (map (\<lambda>n. filter (\<lambda>ij. fst ij = n) ready) (settle_order e))
      in case listed @ ready of [] \<Rightarrow> None | ij # _ \<Rightarrow> Some ij)"

text \<open>
  The indices of the jobs in the order they settle, and the error that kills the
  process, if one does. When a job settles, the limiter starts the job at the head of
  its queue, and the run ends there if the file of that job cannot be opened; it also
  ends when no running job is left that settles.
\<close>

definition settled_first :: "nat \<Rightarrow> nat list \<times> js_error option \<Rightarrow> nat list \<times> js_error option" where
  "settled_first i r = (i # fst r, snd r)"

function settle_history :: "env \<Rightarrow> (nat \<times> job) limiter \<Rightarrow> nat list \<times> js_error option" where
  "settle_history e st =
     (case next_to_settle e (active st) of
        None \<Rightarrow> ([], None)
      | Some ij \<Rightarrow>
          (case first_uncaught e (take 1 (queue st)) of
             Some ex \<Rightarrow> ([fst ij], Some ex)
           | None \<Rightarrow> settled_first (fst ij) (settle_history e (settle ij st))))"
  by pat_completeness auto
termination
proof (relation "measure (\<lambda>(e, st). length (active st) + length (queue st))", goal_cases)
  case 1
  show ?case by simp
next
  case (2 e st ij)
  then have "ij \<in> set (active st)"
    by (auto simp: next_to_settle_def Let_def split: list.splits dest!: arg_cong [where f = set])
  moreover from this have "0 < length (active st)"
    by (rule length_pos_if_in_set)
  ultimately show ?case
    by (auto simp: settle_def length_remove1 split: list.splits)
qed

definition batch_history :: "env \<Rightarrow> nat \<Rightarrow> job list \<Rightarrow> nat list \<times> js_error option" where
  "batch_history e k jobs =
     (case first_uncaught e (active (submit_all k jobs)) of
        Some ex \<Rightarrow> ([], Some ex)
      | None \<Rightarrow> settle_history e (submit_all k jobs))"

text \<open>
  The promises \<^verbatim>\<open>plimit(...)\<close> returned for the jobs: that of a job is the
  promise of its download once the job has run, and pending before.
\<close>

definition limited_promises :: "env \<Rightarrow> job list \<Rightarrow> nat list \<Rightarrow> promise list" where
  "limited_promises e jobs history =
     map (\<lambda>ij. if fst ij \<in> set history then job_promise e (snd ij) else Pending) (enumerate 0 jobs)"

fun ended :: "effect list \<Rightarrow> bool" where
  "ended [] = False"
| "ended (Exit n # _) = True"
| "ended (Uncaught ex # _) = True"
| "ended (_ # es) = ended es"

definition uncaught_effect :: "js_error option \<Rightarrow> effect list" where
  "uncaught_effect r = (case r of None \<Rightarrow> [] | Some ex \<Rightarrow> [Uncaught ex])"

text \<open>
  \<^verbatim>\<open>const result = await Promise.all(promises);\<close> and what follows it, in the
  \<^verbatim>\<open>try\<close> block or in the \<^verbatim>\<open>catch\<close> block. The jobs still in the
  limiter go on after a rejection, so the process can be killed after the
  \<^verbatim>\<open>catch\<close> block has run, unless that block has ended the process itself.
\<close>

definition await_all :: "env \<Rightarrow> options \<Rightarrow> job list \<Rightarrow> effect list" where
  "await_all e opts jobs =
     (let r = batch_history e (slots (concurrency opts) (length jobs)) jobs
      in case promise_all (limited_promises e jobs (fst r)) (fst r) of
           AllResolved res \<Rightarrow> [Log (Finished (length res)), Exit 0]
         | AllRejected error \<Rightarrow>
             (let c = main_catch e opts error
              in if ended c then c else c @ uncaught_effect (snd r))
         | AllPending \<Rightarrow> uncaught_effect (snd r))"

text \<open>
  The \<^verbatim>\<open>try\<close> block. \<^verbatim>\<open>pLimit(concurrency)\<close> throws a
  \<^verbatim>\<open>TypeError\<close> on a concurrency that is not an integer from 1 up or
  \<^verbatim>\<open>Infinity\<close>.
\<close>

definition scheduled_jobs :: "env \<Rightarrow> options \<Rightarrow> playlist \<Rightarrow> string \<Rightarrow> job list" where
  "scheduled_jobs e opts pl dir =
     map (\<lambda>it. \<lparr>title = sanitize e (title it), url = url it, outputDir = dir\<rparr>)
       (selected_items (limit opts) (offset opts) pl)"

text \<open>
  \<^verbatim>\<open>let outputDir = output; if (titleDir) { outputDir = path.join(output, sanitize(playlist.title)); }\<close>
\<close>

definition batch_dir :: "env \<Rightarrow> options \<Rightarrow> playlist \<Rightarrow> string" where
  "batch_dir e opts pl =
     (if titleDir opts then path_join [output_flag opts, sanitize e (playlist_title pl)]
      else output_flag opts)"

definition main :: "env \<Rightarrow> options \<Rightarrow> effect list" where
  "main e opts =
     (case getPLaylist (ytpl e) (link opts) of
        Inl error \<Rightarrow> main_catch e opts error
      | Inr pl \<Rightarrow>
          (let dir = batch_dir e opts pl
           in [Log (PlaylistFound (playlist_title pl) (estimated_items pl)), MkDirByPath dir] @
              (case mkDirByPathSync (mkdirSync e) (cwd e) dir of
                 Inl error \<Rightarrow> main_catch e opts error
               | Inr _ \<Rightarrow>
                   if \<not> valid_concurrency (concurrency opts) then
                     main_catch e opts
                       (Err NoCode ''Expected `concurrency` to be a number from 1 and up'' None)
                   else
                     Log (DownloadingOnly (actualLimit (limit opts) (offset opts) pl)
                            (js_add (offset opts) (Fin 1))) #
                     map Submit (scheduled_jobs e opts pl dir) @
                     await_all e opts (scheduled_jobs e opts pl dir))))"

text \<open>
  The status the process ends with: the argument of the first \<^verbatim>\<open>process.exit\<close>,
  1 when an error that nothing handles kills it, and 0, the status of a Node process
  that ends by itself, otherwise.
\<close>

fun exit_status :: "effect list \<Rightarrow> nat" where
  "exit_status [] = 0"
| "exit_status (Exit n # _) = n"
| "exit_status (Uncaught ex # _) = 1"
| "exit_status (_ # es) = exit_status es"

fun submitted :: "effect list \<Rightarrow> job list" where
  "submitted [] = []"
| "submitted (Submit j # es) = j # submitted es"
| "submitted (_ # es) = submitted es"

fun direct :: "effect list \<Rightarrow> job list" where
  "direct [] = []"
| "direct (Direct j # es) = j # direct es"
| "direct (_ # es) = direct es"

fun basic_info_calls :: "effect list \<Rightarrow> string list" where
  "basic_info_calls [] = []"
| "basic_info_calls (GetBasicInfo l # es) = l # basic_info_calls es"
| "basic_info_calls (_ # es) = basic_info_calls es"

fun exits :: "effect list \<Rightarrow> nat list" where
  "exits [] = []"
| "exits (Exit n # es) = n # exits es"
| "exits (_ # es) = exits es"

section \<open>Sample runs\<close>

text \<open>
  A playlist of five items and a run in which every collaborator succeeds: the link
  \<^verbatim>\<open>PL\<close> is that playlist, \<^verbatim>\<open>vid\<close> is a single video, every
  directory can be created, every file can be opened and every stream ends. For \<open>sanitize\<close> the run removes the
  slash, the first of the characters the \<^verbatim>\<open>sanitize-filename\<close> package removes.
\<close>

definition abcde :: playlist where
  "abcde = \<lparr>playlist_title = ''Letters'', estimated_items = 5,
     items = [\<lparr>title = ''A'', url = ''a''\<rparr>, \<lparr>title = ''B'', url = ''b''\<rparr>,
              \<lparr>title = ''C'', url = ''c''\<rparr>, \<lparr>title = ''D'', url = ''d''\<rparr>,
              \<lparr>title = ''E'', url = ''e''\<rparr>]\<rparr>"

definition resolver :: "playlist \<Rightarrow> string \<Rightarrow> js_error + playlist" where
  "resolver pl l = (if l = ''PL'' then Inr pl else Inl (Err NoCode ''Unable to find a id'' None))"

definition basic_info :: "string \<Rightarrow> js_error + videoDetails" where
  "basic_info l =
     (if l = ''vid'' then Inr \<lparr>video_title = ''AC/DC'', video_url = ''v''\<rparr>
      else Inl (Err NoCode ''No video id found'' None))"

definition no_slash :: "string \<Rightarrow> string" where
  "no_slash s = filter (\<lambda>c. c \<noteq> CHR ''/'') s"

definition created :: "string \<Rightarrow> errno option" where
  "created p = None"

definition opened :: "string \<Rightarrow> errno option" where
  "opened p = None"

definition ending :: "string \<Rightarrow> stream_event list" where
  "ending u = [Response 0, End]"

definition quiet_env :: env where
  "quiet_env = \<lparr>ytpl = resolver abcde, getBasicInfo = basic_info, mkdirSync = created,
     createWriteStream = opened, sanitize = no_slash, cwd = ''/home/u'', ytdl = ending, settle_order = []\<rparr>"

definition flags :: options where
  "flags = \<lparr>link = ''PL'', output_flag = ''./'', concurrency = Fin 5, limit = PInf,
     offset = Fin 0, titleDir = False\<rparr>"

text \<open>The same playlist with an estimated count below, and above, its number of items.\<close>

definition underestimated_env :: env where
  "underestimated_env = quiet_env\<lparr>ytpl := resolver (abcde\<lparr>estimated_items := 2\<rparr>)\<rparr>"

definition overestimated_env :: env where
  "overestimated_env = quiet_env\<lparr>ytpl := resolver (abcde\<lparr>estimated_items := 9\<rparr>)\<rparr>"

text \<open>
  Runs in which one collaborator fails: the stream of item B breaks, no directory can
  be created, and creating the root directory answers \<^verbatim>\<open>EISDIR\<close> (as on a Mac)
  while every other directory can be created.
\<close>

definition boom :: js_error where
  "boom = Err NoCode ''socket hang up'' None"

definition breaking_b :: "string \<Rightarrow> stream_event list" where
  "breaking_b u = (if u = ''b'' then [Response 0, Error boom] else [Response 0, End])"

definition one_failure_env :: env where
  "one_failure_env = quiet_env\<lparr>ytdl := breaking_b\<rparr>"

definition denied :: "string \<Rightarrow> errno option" where
  "denied p = Some EACCES"

definition denied_env :: env where
  "denied_env = quiet_env\<lparr>mkdirSync := denied\<rparr>"

definition root_is_dir :: "string \<Rightarrow> errno option" where
  "root_is_dir p = (if p = ''/'' then Some EISDIR else None)"

definition mac_env :: env where
  "mac_env = quiet_env\<lparr>mkdirSync := root_is_dir\<rparr>"

text \<open>
  Runs with the flag \<^verbatim>\<open>-o f\<close> where \<^verbatim>\<open>f\<close> is a file, not a directory:
  its creation answers \<^verbatim>\<open>EEXIST\<close>, and no file below it can be opened. And a run
  with one slot in which the stream of item A never ends.
\<close>

definition exists_already :: "string \<Rightarrow> errno option" where
  "exists_already p = Some EEXIST"

definition not_a_directory :: "string \<Rightarrow> errno option" where
  "not_a_directory p = Some ENOTDIR"

definition file_in_the_way_env :: env where
  "file_in_the_way_env = quiet_env\<lparr>mkdirSync := exists_already, createWriteStream := not_a_directory\<rparr>"

definition hanging_a :: "string \<Rightarrow> stream_event list" where
  "hanging_a u = (if u = ''a'' then [Response 0] else [Response 0, End])"

definition hanging_env :: env where
  "hanging_env = quiet_env\<lparr>ytdl := hanging_a\<rparr>"

section \<open>Facts about the runs\<close>

lemma submitted_append: "submitted (xs @ ys) = submitted xs @ submitted ys"
  by (induction xs rule: submitted.induct) simp_all

lemma submitted_map_Submit: "submitted (map Submit js) = js"
  by (induction js) simp_all

lemma submitted_main_catch: "submitted (main_catch e opts error) = []"
  by (simp add: main_catch_def Let_def split: sum.splits promise.splits option.splits)

lemma submitted_await_all: "submitted (await_all e opts jobs) = []"
  by (simp add: await_all_def Let_def uncaught_effect_def submitted_append submitted_main_catch
        split: all_promise.splits option.splits)

lemma submitted_main:
  assumes "getPLaylist (ytpl e) (link opts) = Inr pl"
    and "mkDirByPathSync (mkdirSync e) (cwd e) (batch_dir e opts pl) = Inr d"
    and "valid_concurrency (concurrency opts)"
  shows "submitted (main e opts) = scheduled_jobs e opts pl (batch_dir e opts pl)"
  using assms
  by (simp add: main_def Let_def submitted_append submitted_map_Submit submitted_main_catch
        submitted_await_all)

lemma quiet_mkdir: "mkDirByPathSync created ''/home/u'' ''./'' = Inr ''/home/u''"
  by (simp add: mkDirByPathSync_def mkdir_round_def created_def isAbsolute_def path_resolve_def)

lemma resolver_PL: "getPLaylist (resolver pl) ''PL'' = Inr pl"
  by (simp add: getPLaylist_def resolver_def)


lemma exits_append: "exits (xs @ ys) = exits xs @ exits ys"
  by (induction xs rule: exits.induct) simp_all

lemma exits_map_Submit: "exits (map Submit js) = []"
  by (induction js) simp_all

lemma main_scheduled:
  assumes "getPLaylist (ytpl e) (link opts) = Inr pl"
    and "mkDirByPathSync (mkdirSync e) (cwd e) (batch_dir e opts pl) = Inr d"
    and "valid_concurrency (concurrency opts)"
  shows "main e opts =
           [Log (PlaylistFound (playlist_title pl) (estimated_items pl)),
            MkDirByPath (batch_dir e opts pl),
            Log (DownloadingOnly (actualLimit (limit opts) (offset opts) pl)
                   (js_add (offset opts) (Fin 1)))] @
           map Submit (scheduled_jobs e opts pl (batch_dir e opts pl)) @
           await_all e opts (scheduled_jobs e opts pl (batch_dir e opts pl))"
  using assms by (simp add: main_def Let_def)

lemma main_not_found:
  assumes "link opts \<noteq> []" and "ytpl e (link opts) = Inl ex"
  shows "main e opts =
           main_catch e opts (Err (NumCode 404) ''Playlist link or id not found'' (Some ex))"
  using assms by (simp add: main_def getPLaylist_def)

lemma main_no_link:
  assumes "link opts = []"
  shows "main e opts = [LogError ''Error: '' (Err (NumCode 400) ''No playlist link provided'' None)]"
  using assms by (simp add: main_def getPLaylist_def main_catch_def code_is_404_def)

lemma direct_append: "direct (xs @ ys) = direct xs @ direct ys"
  by (induction xs rule: direct.induct) simp_all

lemma basic_info_calls_append: "basic_info_calls (xs @ ys) = basic_info_calls xs @ basic_info_calls ys"
  by (induction xs rule: basic_info_calls.induct) simp_all

lemma scheduled_jobs_sanitized:
  "j \<in> set (scheduled_jobs e opts pl dir) \<Longrightarrow>
     \<exists>it \<in> set (items pl). title j = sanitize e (title it) \<and> url j = url it \<and> outputDir j = dir"
proof -
  assume "j \<in> set (scheduled_jobs e opts pl dir)"
  then obtain it where i: "it \<in> set (selected_items (limit opts) (offset opts) pl)"
    and j: "j = \<lparr>title = sanitize e (title it), url = url it, outputDir = dir\<rparr>"
    by (auto simp: scheduled_jobs_def)
  from i have "it \<in> set (items pl)"
    by (auto simp: selected_items_def slice_def Let_def dest: in_set_takeD in_set_dropD)
  with j show ?thesis by auto
qed


section \<open>The directory mkDirByPathSync ends in\<close>

lemma split_sep_not_Nil: "split_sep s \<noteq> []"
  by (induction s) (auto split: list.splits)

lemma split_sep_no_slash: "w \<in> set (split_sep s) \<Longrightarrow> CHR ''/'' \<notin> set w"
proof (induction s arbitrary: w)
  case Nil
  then show ?case by simp
next
  case (Cons c cs)
  show ?case
  proof (cases "c = CHR ''/''")
    case True
    with Cons show ?thesis by auto
  next
    case False
    obtain v vs where s: "split_sep cs = v # vs"
      using split_sep_not_Nil [of cs] by (cases "split_sep cs") auto
    with Cons False show ?thesis by auto
  qed
qed

lemma split_sep_plain: "CHR ''/'' \<notin> set w \<Longrightarrow> split_sep w = [w]"
  by (induction w) auto

lemma split_sep_append: "CHR ''/'' \<notin> set w \<Longrightarrow> split_sep (w @ CHR ''/'' # r) = w # split_sep r"
  by (induction w) auto

lemma split_join:
  "S \<noteq> [] \<Longrightarrow> \<forall>w \<in> set S. CHR ''/'' \<notin> set w \<Longrightarrow> split_sep (join_sep S) = S"
proof (induction S rule: join_sep.induct)
  case 1
  then show ?case by simp
next
  case (2 w)
  then show ?case by (simp add: split_sep_plain)
next
  case (3 w v vs)
  then show ?case by (simp add: split_sep_append)
qed

lemma normalizeString_append:
  "normalizeString b acc (xs @ ys) = normalizeString b (normalizeString b acc xs) ys"
  by (induction xs arbitrary: acc) auto

lemma normalizeString_plain:
  "\<forall>w \<in> set acc. plain_segment w \<Longrightarrow> \<forall>w \<in> set xs. CHR ''/'' \<notin> set w \<Longrightarrow>
   \<forall>w \<in> set (normalizeString False acc xs). plain_segment w"
proof (induction xs arbitrary: acc)
  case Nil
  then show ?case by simp
next
  case (Cons x xs)
  have b: "\<forall>w \<in> set (butlast acc). plain_segment w"
    using Cons.prems(1) by (auto dest: in_set_butlastD)
  have a: "x \<noteq> [] \<Longrightarrow> x \<noteq> ''.'' \<Longrightarrow> x \<noteq> ''..'' \<Longrightarrow> \<forall>w \<in> set (acc @ [x]). plain_segment w"
    using Cons.prems by (auto simp: plain_segment_def)
  show ?case
    using Cons.IH [OF Cons.prems(1)] Cons.IH [OF b] Cons.IH [OF a] Cons.prems(2)
    by auto
qed

lemma normalizeString_id:
  "\<forall>w \<in> set S. plain_segment w \<Longrightarrow> normalizeString False acc S = acc @ S"
  by (induction S arbitrary: acc) (auto simp: plain_segment_def)

lemma normalize_rooted:
  assumes "\<forall>w \<in> set S. plain_segment w"
  shows "normalizeString False [] (split_sep (CHR ''/'' # join_sep S)) = S"
proof (cases "S = []")
  case True
  then show ?thesis by simp
next
  case False
  have "\<forall>w \<in> set S. CHR ''/'' \<notin> set w" using assms by (simp add: plain_segment_def)
  then have "split_sep (join_sep S) = S" using False split_join by blast
  then show ?thesis using normalizeString_id [OF assms, of "[]"] by simp
qed

lemma resolve_child:
  assumes "\<forall>w \<in> set S. plain_segment w" and "CHR ''/'' \<notin> set child"
  shows "path_resolve wd [''.'', CHR ''/'' # join_sep S, child] =
           CHR ''/'' # join_sep (normalizeString False S [child])"
proof -
  have c: "\<not> isAbsolute child" using assms(2) by (cases child) (auto simp: isAbsolute_def)
  have f: "from_last_absolute [wd, ''.'', CHR ''/'' # join_sep S, child] = [CHR ''/'' # join_sep S, child]"
    using c by (simp add: isAbsolute_def)
  have "normalizeString False [] (split_sep (CHR ''/'' # join_sep S) @ split_sep child) =
        normalizeString False S [child]"
    unfolding normalizeString_append normalize_rooted [OF assms(1)] split_sep_plain [OF assms(2)] ..
  then show ?thesis unfolding path_resolve_def f by simp
qed

lemma resolve_first:
  assumes "CHR ''/'' \<notin> set child"
  shows "path_resolve wd [''.'', [], child] =
           CHR ''/'' # join_sep (normalizeString False (normalizeString False [] (split_sep wd)) [child])"
proof -
  have c: "\<not> isAbsolute child" using assms by (cases child) (auto simp: isAbsolute_def)
  have f: "from_last_absolute [wd, ''.'', [], child] = [wd, ''.'', [], child]"
    using c by (simp add: isAbsolute_def)
  have "normalizeString False [] (split_sep wd @ [''.'', [], child]) =
        normalizeString False (normalizeString False [] (split_sep wd)) [child]"
    unfolding normalizeString_append by simp
  then show ?thesis unfolding path_resolve_def f by (simp add: split_sep_plain [OF assms])
qed

lemma mkdir_round_Inl: "foldl (mkdir_round mk wd t) (Inl ex) segs = Inl ex"
  by (induction segs) (simp_all add: mkdir_round_def)

lemma mkdir_round_Inr:
  "mkdir_round mk wd t (Inr parent) child = Inr d \<Longrightarrow>
     d = path_resolve wd [''.'', parent, child] \<and>
     (mk d = None \<or> mk d = Some EEXIST \<or> d \<noteq> path_resolve wd [t])"
  by (auto simp: mkdir_round_def Let_def split: option.splits if_splits)

lemma mkdir_fold_path:
  assumes "foldl (mkdir_round mk wd t) (Inr (CHR ''/'' # join_sep S)) segs = Inr d"
    and "\<forall>w \<in> set S. plain_segment w" and "\<forall>w \<in> set segs. CHR ''/'' \<notin> set w"
  shows "d = CHR ''/'' # join_sep (normalizeString False S segs)"
  using assms
proof (induction segs arbitrary: S)
  case Nil
  then show ?case by simp
next
  case (Cons child segs)
  show ?case
  proof (cases "mkdir_round mk wd t (Inr (CHR ''/'' # join_sep S)) child")
    case (Inl ex)
    with Cons.prems(1) show ?thesis by (simp add: mkdir_round_Inl)
  next
    case (Inr c)
    have n: "CHR ''/'' \<notin> set child" using Cons.prems(3) by simp
    have c: "c = CHR ''/'' # join_sep (normalizeString False S [child])"
      using mkdir_round_Inr [OF Inr] resolve_child [OF Cons.prems(2) n] by simp
    have p: "\<forall>w \<in> set (normalizeString False S [child]). plain_segment w"
      using normalizeString_plain [OF Cons.prems(2), of "[child]"] n by simp
    have "d = CHR ''/'' # join_sep (normalizeString False (normalizeString False S [child]) segs)"
      using Cons.IH [OF _ p] Cons.prems(1,3) Inr c by simp
    then show ?thesis using normalizeString_append [of False S "[child]" segs] by simp
  qed
qed

lemma mkDirByPathSync_path:
  assumes "mkDirByPathSync mk wd t = Inr d"
  shows "d = path_resolve wd [t]"
proof -
  have ns: "\<forall>w \<in> set (split_sep t). CHR ''/'' \<notin> set w" using split_sep_no_slash by blast
  show ?thesis
  proof (cases "isAbsolute t")
    case True
    then have f: "from_last_absolute [wd, t] = [t]" by simp
    have "foldl (mkdir_round mk wd t) (Inr (CHR ''/'' # join_sep [])) (split_sep t) = Inr d"
      using assms True by (simp add: mkDirByPathSync_def)
    then have "d = CHR ''/'' # join_sep (normalizeString False [] (split_sep t))"
      using mkdir_fold_path [of mk wd t "[]" "split_sep t" d] ns by simp
    then show ?thesis unfolding path_resolve_def f by simp
  next
    case False
    then have f: "from_last_absolute [wd, t] = [wd, t]" by simp
    obtain child segs where s: "split_sep t = child # segs"
      using split_sep_not_Nil [of t] by (cases "split_sep t") auto
    have n: "CHR ''/'' \<notin> set child" using ns s by simp
    let ?B = "normalizeString False [] (split_sep wd)"
    have B: "\<forall>w \<in> set ?B. plain_segment w"
      using normalizeString_plain [of "[]" "split_sep wd"] split_sep_no_slash by simp
    have fold: "foldl (mkdir_round mk wd t) (mkdir_round mk wd t (Inr []) child) segs = Inr d"
      using assms False s by (simp add: mkDirByPathSync_def)
    show ?thesis
    proof (cases "mkdir_round mk wd t (Inr []) child")
      case (Inl ex)
      with fold show ?thesis by (simp add: mkdir_round_Inl)
    next
      case (Inr c)
      have c: "c = CHR ''/'' # join_sep (normalizeString False ?B [child])"
        using mkdir_round_Inr [OF Inr] resolve_first [OF n] by simp
      have p: "\<forall>w \<in> set (normalizeString False ?B [child]). plain_segment w"
        using normalizeString_plain [OF B, of "[child]"] n by simp
      have "d = CHR ''/'' # join_sep (normalizeString False (normalizeString False ?B [child]) segs)"
        using mkdir_fold_path [of mk wd t "normalizeString False ?B [child]" segs d] fold Inr c p ns s
        by simp
      then have "d = CHR ''/'' # join_sep (normalizeString False [] (split_sep wd @ split_sep t))"
        unfolding s normalizeString_append [of False "[]" "split_sep wd" "child # segs"]
        using normalizeString_append [of False ?B "[child]" segs] by simp
      then show ?thesis unfolding path_resolve_def f by simp
    qed
  qed
qed

lemma mkDirByPathSync_last:
  assumes "mkDirByPathSync mk wd t = Inr d"
  shows "mk d = None \<or> mk d = Some EEXIST"
proof -
  obtain segs child where s: "split_sep t = segs @ [child]"
    using split_sep_not_Nil [of t] by (metis rev_exhaust)
  let ?init = "Inr (if isAbsolute t then ''/'' else [])"
  have r: "mkdir_round mk wd t (foldl (mkdir_round mk wd t) ?init segs) child = Inr d"
    using assms s by (simp add: mkDirByPathSync_def)
  show ?thesis
  proof (cases "foldl (mkdir_round mk wd t) ?init segs")
    case (Inl ex)
    with r show ?thesis by (simp add: mkdir_round_def)
  next
    case (Inr parent)
    with r have "mkdir_round mk wd t (Inr parent) child = Inr d" by simp
    then have "mk d = None \<or> mk d = Some EEXIST \<or> d \<noteq> path_resolve wd [t]"
      by (rule mkdir_round_Inr [THEN conjunct2])
    with mkDirByPathSync_path [OF assms] show ?thesis by simp
  qed
qed

section \<open>Facts about the jobs in the limiter\<close>

lemma fold_not_killed:
  "\<forall>ev \<in> set evs. \<not> file_event ev \<Longrightarrow> uncaught d = None \<Longrightarrow>
     uncaught (foldl (on_event t) d evs) = None"
proof (induction evs arbitrary: d)
  case Nil
  then show ?case by simp
next
  case (Cons ev evs)
  have "uncaught (on_event t d ev) = None"
    using Cons.prems by (cases ev) (simp_all add: on_event_def)
  then show ?case using Cons.IH [of "on_event t d ev"] Cons.prems(1) by simp
qed

lemma job_uncaught_pending: "job_uncaught e j = Some ex \<Longrightarrow> job_promise e j = Pending"
proof (cases "createWriteStream e (destination j)")
  case None
  then have "job_uncaught e j = None"
    unfolding job_uncaught_def job_events_def downloadVideo_def
    by (simp add: fold_not_killed)
  moreover assume "job_uncaught e j = Some ex"
  ultimately show ?thesis by simp
next
  case (Some c)
  then show ?thesis
    by (simp add: job_promise_def job_events_def downloadVideo_def on_event_def)
qed

lemma first_uncaught_None:
  "\<forall>ij \<in> set js. job_promise e (snd ij) \<noteq> Pending \<Longrightarrow> first_uncaught e js = None"
proof -
  assume a: "\<forall>ij \<in> set js. job_promise e (snd ij) \<noteq> Pending"
  have "job_uncaught e (snd ij) = None" if "ij \<in> set js" for ij
    using a that job_uncaught_pending [of e "snd ij"] by (cases "job_uncaught e (snd ij)") auto
  then have "List.map_filter (\<lambda>ij. job_uncaught e (snd ij)) js = []"
    by (induction js) (simp_all add: List.map_filter_simps)
  then show ?thesis by (simp add: first_uncaught_def)
qed

lemma next_to_settle_Some:
  "next_to_settle e running = Some ij \<Longrightarrow> ij \<in> set running"
  by (auto simp: next_to_settle_def Let_def split: list.splits dest!: arg_cong [where f = set])

lemma next_to_settle_None:
  "next_to_settle e running = None \<Longrightarrow> \<forall>ij \<in> set running. job_promise e (snd ij) = Pending"
  by (auto simp: next_to_settle_def Let_def filter_empty_conv split: list.splits)

lemma insert_remove1: "x \<in> set xs \<Longrightarrow> insert x (set (remove1 x xs)) = set xs"
  by (induction xs) auto

lemma set_settle:
  "ij \<in> set (active st) \<Longrightarrow>
     insert ij (set (active (settle ij st) @ queue (settle ij st))) = set (active st @ queue st)"
proof -
  assume a: "ij \<in> set (active st)"
  have r: "insert ij (set (remove1 ij (active st))) = set (active st)"
    using a by (rule insert_remove1)
  show ?thesis
  proof (cases "queue st")
    case Nil
    with a r show ?thesis by (simp add: settle_def)
  next
    case (Cons q qs)
    with a r show ?thesis by (auto simp: settle_def)
  qed
qed

lemma settle_keeps_running:
  "ij \<in> set (active st) \<Longrightarrow> queue (settle ij st) \<noteq> [] \<Longrightarrow> active (settle ij st) \<noteq> []"
  by (auto simp: settle_def split: list.splits)

lemma settle_history_all:
  "\<forall>ij \<in> set (active st @ queue st). job_promise e (snd ij) \<noteq> Pending \<Longrightarrow>
   (queue st \<noteq> [] \<longrightarrow> active st \<noteq> []) \<Longrightarrow>
     snd (settle_history e st) = None \<and>
     set (fst (settle_history e st)) = fst ` set (active st @ queue st)"
proof (induction e st rule: settle_history.induct)
  case (1 e st)
  show ?case
  proof (cases "next_to_settle e (active st)")
    case None
    then have "\<forall>ij \<in> set (active st). job_promise e (snd ij) = Pending"
      by (rule next_to_settle_None)
    with "1.prems"(1) have "active st = []" by (cases "active st") auto
    with "1.prems"(2) have "queue st = []" by blast
    with None \<open>active st = []\<close> show ?thesis by (simp add: settle_history.simps [of e st])
  next
    case (Some ij)
    then have a: "ij \<in> set (active st)" by (rule next_to_settle_Some)
    have u: "first_uncaught e (take 1 (queue st)) = None"
      using "1.prems"(1) by (intro first_uncaught_None) (auto dest: in_set_takeD)
    have s: "insert ij (set (active (settle ij st) @ queue (settle ij st))) = set (active st @ queue st)"
      using a by (rule set_settle)
    have p: "\<forall>x \<in> set (active (settle ij st) @ queue (settle ij st)). job_promise e (snd x) \<noteq> Pending"
      using "1.prems"(1) s by blast
    have q: "queue (settle ij st) \<noteq> [] \<longrightarrow> active (settle ij st) \<noteq> []"
      using settle_keeps_running [OF a] by blast
    have ih: "snd (settle_history e (settle ij st)) = None \<and>
        set (fst (settle_history e (settle ij st))) =
          fst ` set (active (settle ij st) @ queue (settle ij st))"
      using "1.IH" [OF Some u p q] .
    have "settle_history e st = settled_first (fst ij) (settle_history e (settle ij st))"
      using Some u by (simp add: settle_history.simps [of e st])
    then have "snd (settle_history e st) = None \<and>
        set (fst (settle_history e st)) =
          insert (fst ij) (fst ` set (active (settle ij st) @ queue (settle ij st)))"
      using ih by (simp add: settled_first_def)
    moreover have "insert (fst ij) (fst ` set (active (settle ij st) @ queue (settle ij st))) =
        fst ` set (active st @ queue st)"
      using s by (metis image_insert)
    ultimately show ?thesis by simp
  qed
qed

lemma schedule_fold:
  "(queue st \<noteq> [] \<longrightarrow> k \<le> length (active st)) \<Longrightarrow>
     set (active (foldl (limiter_step k) st (map Schedule xs)) @
          queue (foldl (limiter_step k) st (map Schedule xs))) = set (active st @ queue st) \<union> set xs
     \<and> (queue (foldl (limiter_step k) st (map Schedule xs)) \<noteq> [] \<longrightarrow>
          k \<le> length (active (foldl (limiter_step k) st (map Schedule xs))))"
proof (induction xs arbitrary: st)
  case Nil
  then show ?case by simp
next
  case (Cons x xs)
  have i: "queue (schedule k x st) \<noteq> [] \<longrightarrow> k \<le> length (active (schedule k x st))"
    using Cons.prems by (auto simp: schedule_def)
  have s: "set (active (schedule k x st) @ queue (schedule k x st)) = insert x (set (active st @ queue st))"
    by (auto simp: schedule_def)
  show ?case using Cons.IH [OF i] s by simp
qed

lemma submit_all_jobs:
  "set (active (submit_all k jobs) @ queue (submit_all k jobs)) = set (enumerate 0 jobs)
   \<and> (1 \<le> k \<longrightarrow> queue (submit_all k jobs) \<noteq> [] \<longrightarrow> active (submit_all k jobs) \<noteq> [])"
  using schedule_fold [of pLimit k "enumerate 0 jobs"]
  by (auto simp: submit_all_def limiter_run_def pLimit_def)

lemma batch_history_all:
  assumes "1 \<le> k" and "\<forall>j \<in> set jobs. job_promise e j \<noteq> Pending"
  shows "snd (batch_history e k jobs) = None \<and> set (fst (batch_history e k jobs)) = {0 ..< length jobs}"
proof -
  let ?st = "submit_all k jobs"
  have all: "\<forall>ij \<in> set (active ?st @ queue ?st). job_promise e (snd ij) \<noteq> Pending"
    using assms(2) submit_all_jobs [of k jobs] by (auto simp: in_set_enumerate_eq)
  then have u: "first_uncaught e (active ?st) = None"
    by (intro first_uncaught_None) auto
  have q: "queue ?st \<noteq> [] \<longrightarrow> active ?st \<noteq> []"
    using assms(1) submit_all_jobs [of k jobs] by blast
  have "fst ` set (enumerate 0 jobs) = set (map fst (enumerate 0 jobs))"
    by (simp only: set_map)
  also have "\<dots> = {0 ..< length jobs}"
    by (simp only: map_fst_enumerate) simp
  finally have "fst ` set (enumerate 0 jobs) = {0 ..< length jobs}" .
  then show ?thesis
    using settle_history_all [OF all q] u submit_all_jobs [of k jobs]
    by (simp add: batch_history_def)
qed

lemma limited_promises_all:
  assumes "{0 ..< length jobs} \<subseteq> set h"
  shows "limited_promises e jobs h = map (job_promise e) jobs"
proof -
  have "map (\<lambda>ij. if fst ij \<in> set h then job_promise e (snd ij) else Pending) (enumerate 0 jobs) =
        map (\<lambda>ij. job_promise e (snd ij)) (enumerate 0 jobs)"
  proof (rule map_cong [OF refl])
    fix ij
    assume "ij \<in> set (enumerate 0 jobs)"
    then have "fst ij < length jobs" by (simp add: in_set_enumerate_eq)
    with assms have "fst ij \<in> set h" by auto
    then show "(if fst ij \<in> set h then job_promise e (snd ij) else Pending) = job_promise e (snd ij)"
      by simp
  qed
  also have "\<dots> = map (job_promise e) (map snd (enumerate 0 jobs))"
    by (simp only: map_map comp_def)
  also have "\<dots> = map (job_promise e) jobs"
    by (simp only: map_snd_enumerate)
  finally show ?thesis unfolding limited_promises_def .
qed

lemma slots_positive: "valid_concurrency c \<Longrightarrow> 0 < n \<Longrightarrow> 1 \<le> slots c n"
  by (cases c) (auto simp: valid_concurrency_def slots_def js_trunc_def)

section \<open>The selection of the items\<close>

lemma js_trunc_of_int [simp]: "js_trunc (of_int i) = i"
  by (simp add: js_trunc_def)

lemma js_trunc_of_nat [simp]: "js_trunc (of_nat n) = int n"
  using js_trunc_of_int [of "int n"] by simp

lemma slice_index_int: "slice_index len (Fin (of_int i)) = (if i < 0 then nat (max (int len + i) 0) else nat (min i (int len)))"
  by (simp add: Let_def)

lemma end_index:
  "js_add (of_nat_js off) (actualLimit (limit_js lmt) (of_nat_js off) p) =
     Fin (of_int (int off + (case lmt of None \<Rightarrow> int (estimated_items p) - int off
            | Some l \<Rightarrow> min (int l) (int (estimated_items p) - int off))))"
  by (cases lmt) (simp_all add: actualLimit_def limit_js_def of_nat_js_def js_sub_def min_def)

lemma slice_index_nat: "slice_index len (Fin (of_nat n)) = min n len"
  by (simp add: Let_def)

lemma take_cong_min: "min n (length ys) = min m (length ys) \<Longrightarrow> take n ys = take m ys"
proof -
  assume h: "min n (length ys) = min m (length ys)"
  have "take n ys = take (min n (length ys)) ys" by (simp add: min_def)
  also have "\<dots> = take (min m (length ys)) ys" using h by simp
  also have "\<dots> = take m ys" by (simp add: min_def)
  finally show ?thesis .
qed

lemma end_clamp:
  "off \<le> len \<Longrightarrow> - int off \<le> c \<Longrightarrow>
   min ((if int off + c < 0 then nat (max (int len + (int off + c)) 0)
         else nat (min (int off + c) (int len))) - off) (len - off) =
   min (nat (max 0 c)) (len - off)"
  by (cases "int off + c < 0"; cases "0 \<le> c"; cases "int off + c \<le> int len") auto

lemma selected_take_drop:
  "selected_items (limit_js lmt) (of_nat_js off) p =
     take (nat (spec_scheduled_count lmt (estimated_items p) off)) (drop off (items p))"
proof (cases "off \<le> length (items p)")
  case False
  then show ?thesis
    by (simp add: selected_items_def slice_def Let_def of_nat_js_def slice_index_nat)
next
  case True
  have "selected_items (limit_js lmt) (of_nat_js off) p =
        take (slice_index (length (items p))
               (js_add (of_nat_js off) (actualLimit (limit_js lmt) (of_nat_js off) p)) - off)
          (drop off (items p))"
    using True by (simp add: selected_items_def slice_def Let_def of_nat_js_def slice_index_nat min_def)
  also have "\<dots> = take (nat (spec_scheduled_count lmt (estimated_items p) off)) (drop off (items p))"
    unfolding end_index slice_index_int
  proof (rule take_cong_min)
    let ?c = "case lmt of None \<Rightarrow> int (estimated_items p) - int off
              | Some l \<Rightarrow> min (int l) (int (estimated_items p) - int off)"
    have c: "- int off \<le> ?c" by (simp split: option.splits)
    have s: "spec_scheduled_count lmt (estimated_items p) off = max 0 ?c"
      by (simp add: spec_scheduled_count_def)
    show "min ((if int off + ?c < 0 then nat (max (int (length (items p)) + (int off + ?c)) 0)
                else nat (min (int off + ?c) (int (length (items p))))) - off)
            (length (drop off (items p))) =
          min (nat (spec_scheduled_count lmt (estimated_items p) off)) (length (drop off (items p)))"
      unfolding s using end_clamp [OF True c] by simp
  qed
  finally show ?thesis .
qed

lemma selected_length:
  "int (length (selected_items (limit_js lmt) (of_nat_js off) p)) =
     spec_scheduled_count lmt (min (estimated_items p) (length (items p))) off"
  unfolding selected_take_drop
  by (auto simp: spec_scheduled_count_def split: option.splits)


text \<open>
  C1 (amended). With a natural offset and a natural or unbounded limit, the jobs
  submitted to the limiter are the items \<open>items[offset : offset + c]\<close> in their order,
  where \<open>c = max(0, min(limit, estimated_items - offset))\<close> is computed from the count the
  resolver estimates; their number is \<open>max(0, min(limit, n - offset))\<close> for \<open>n\<close> the
  smaller of the estimated count and the number of items, which is the number of items
  whenever the estimate is not below it.
\<close>

theorem scheduled_slice:
  assumes "getPLaylist (ytpl e) (link opts) = Inr pl"
    and "mkDirByPathSync (mkdirSync e) (cwd e) (batch_dir e opts pl) = Inr d"
    and "valid_concurrency (concurrency opts)"
    and "limit opts = limit_js lmt" and "offset opts = of_nat_js off"
  shows "submitted (main e opts) =
           map (\<lambda>it. \<lparr>title = sanitize e (title it), url = url it, outputDir = batch_dir e opts pl\<rparr>)
             (take (nat (spec_scheduled_count lmt (estimated_items pl) off)) (drop off (items pl)))
       \<and> int (length (submitted (main e opts))) =
           spec_scheduled_count lmt (min (estimated_items pl) (length (items pl))) off
       \<and> (length (items pl) \<le> estimated_items pl \<longrightarrow>
           int (length (submitted (main e opts))) = spec_scheduled_count lmt (length (items pl)) off)"
proof -
  have s: "submitted (main e opts) =
        map (\<lambda>it. \<lparr>title = sanitize e (title it), url = url it,
                   outputDir = batch_dir e opts pl\<rparr>)
          (selected_items (limit_js lmt) (of_nat_js off) pl)"
    using submitted_main [OF assms(1-3)] assms(4,5) by (simp add: scheduled_jobs_def)
  have l: "int (length (submitted (main e opts))) =
        spec_scheduled_count lmt (min (estimated_items pl) (length (items pl))) off"
    unfolding s by (simp add: selected_length)
  show ?thesis using l s by (simp add: selected_take_drop min_def)
qed

theorem scheduled_slice_witness:
  "map url (submitted (main quiet_env (flags\<lparr>limit := Fin 2, offset := Fin 1\<rparr>))) = [''b'', ''c'']"
  using scheduled_slice [of quiet_env "flags\<lparr>limit := Fin 2, offset := Fin 1\<rparr>" abcde "''/home/u''" "Some 2" 1]
    quiet_mkdir resolver_PL [of abcde]
  by (simp add: quiet_env_def flags_def valid_concurrency_def limit_js_def of_nat_js_def js_trunc_def
        spec_scheduled_count_def abcde_def batch_dir_def)

lemma submitted_estimate:
  "submitted (main (quiet_env\<lparr>ytpl := resolver pl\<rparr>) flags) =
     scheduled_jobs (quiet_env\<lparr>ytpl := resolver pl\<rparr>) flags pl ''./''"
  using submitted_main [of "quiet_env\<lparr>ytpl := resolver pl\<rparr>" flags pl "''/home/u''"]
    quiet_mkdir resolver_PL [of pl]
  by (simp add: quiet_env_def flags_def valid_concurrency_def js_trunc_def batch_dir_def)

theorem scheduled_count_counterexample:
  "int (length (submitted (main underestimated_env flags)))
     \<noteq> spec_scheduled_count None (length (items (abcde\<lparr>estimated_items := 2\<rparr>))) 0
   \<and> int (length (submitted (main overestimated_env flags)))
     \<noteq> spec_scheduled_count None (estimated_items (abcde\<lparr>estimated_items := 9\<rparr>)) 0"
  unfolding underestimated_env_def overestimated_env_def submitted_estimate
  by (simp add: scheduled_jobs_def selected_items_def actualLimit_def slice_def flags_def
        abcde_def of_nat_js_def js_sub_def js_trunc_def spec_scheduled_count_def)

section \<open>The limiter\<close>

lemma schedule_bound: "length (active st) \<le> k \<Longrightarrow> length (active (schedule k j st)) \<le> k"
  by (simp add: schedule_def)

lemma settle_bound: "length (active st) \<le> k \<Longrightarrow> length (active (settle j st)) \<le> k"
proof (cases "j \<in> set (active st)")
  case False
  assume "length (active st) \<le> k"
  with False show ?thesis by (simp add: settle_def)
next
  case True
  assume b: "length (active st) \<le> k"
  from True have "0 < length (active st)" by (cases "active st") auto
  with True b show ?thesis
    by (auto simp: settle_def length_remove1 split: list.splits)
qed

lemma limiter_step_bound:
  "length (active st) \<le> k \<Longrightarrow> length (active (limiter_step k st ev)) \<le> k"
  by (cases ev) (simp_all add: schedule_bound settle_bound)

lemma limiter_fold_bound:
  "length (active st) \<le> k \<Longrightarrow> length (active (foldl (limiter_step k) st evs)) \<le> k"
  by (induction evs arbitrary: st) (simp_all add: limiter_step_bound)

text \<open>
  C2. With a concurrency \<open>k\<close> of at least 1, after any sequence of submissions and
  settlements the limiter holds at most \<open>k\<close> active jobs. Every moment of an execution
  is the end of such a sequence, so the bound holds throughout the run of a batch, whose
  jobs \<open>main\<close> hands to the limiter one by one.
\<close>

theorem limiter_bound: "1 \<le> k \<Longrightarrow> length (active (limiter_run k evs)) \<le> k"
  unfolding limiter_run_def by (rule limiter_fold_bound) (simp add: pLimit_def)

theorem limiter_bound_witness:
  "(1::nat) \<le> 2 \<and>
   length (active (limiter_run 2 [Schedule ''a'', Schedule ''b'', Schedule ''c'', Settle ''a''])) \<le> 2"
  using limiter_bound [of 2 "[Schedule ''a'', Schedule ''b'', Schedule ''c'', Settle ''a'']"]
  by simp

section \<open>A failing job\<close>

lemma resolved_not_rejected: "is_resolved p \<Longrightarrow> \<not> is_rejected p"
  by (cases p) simp_all

lemma promise_all_one_rejected:
  assumes i: "i < length ps" and r: "ps ! i = Rejected ex"
    and o: "\<forall>n < length ps. n \<noteq> i \<longrightarrow> is_resolved (ps ! n)"
  shows "promise_all ps order = AllRejected ex"
proof -
  let ?is = "filter (\<lambda>n. n < length ps) order @ [0 ..< length ps]"
  let ?rs = "filter is_rejected (map (\<lambda>n. ps ! n) ?is)"
  have all: "x = Rejected ex" if "x \<in> set ?rs" for x
  proof -
    from that obtain n where n: "n < length ps" "x = ps ! n" and x: "is_rejected x" by auto
    show ?thesis
    proof (cases "n = i")
      case True
      with n r show ?thesis by simp
    next
      case False
      with o n have "is_resolved x" by simp
      with x show ?thesis using resolved_not_rejected by blast
    qed
  qed
  have "ps ! i \<in> set (map (\<lambda>n. ps ! n) ?is)" using i by auto
  then have "Rejected ex \<in> set ?rs" using r by simp
  then have "?rs \<noteq> []" by (metis empty_iff list.set(1))
  then obtain x xs where c: "?rs = x # xs" by (auto simp only: neq_Nil_conv)
  then have "x \<in> set ?rs" by simp
  then have "x = Rejected ex" by (rule all)
  with c show ?thesis unfolding promise_all_def by simp
qed

text \<open>
  C3 (amended). When exactly one of the scheduled jobs fails, with an error whose code
  is not 404, all the jobs stay submitted and \<open>main\<close> never calls
  \<^verbatim>\<open>process.exit\<close>; but the awaited \<^verbatim>\<open>Promise.all\<close> is rejected with the
  error of that job: no list of results is produced, the summary line is not written,
  and the error is written to the console.
\<close>

theorem one_failure:
  assumes "getPLaylist (ytpl e) (link opts) = Inr pl"
    and "mkDirByPathSync (mkdirSync e) (cwd e) (batch_dir e opts pl) = Inr d"
    and "valid_concurrency (concurrency opts)"
    and "jobs = scheduled_jobs e opts pl (batch_dir e opts pl)"
    and "i < length jobs"
    and "job_promise e (jobs ! i) = Rejected ex"
    and "\<forall>n < length jobs. n \<noteq> i \<longrightarrow> is_resolved (job_promise e (jobs ! n))"
    and "\<not> code_is_404 ex"
  shows "promise_all (map (job_promise e) jobs) (settle_order e) = AllRejected ex
       \<and> main e opts =
           [Log (PlaylistFound (playlist_title pl) (estimated_items pl)),
            MkDirByPath (batch_dir e opts pl),
            Log (DownloadingOnly (actualLimit (limit opts) (offset opts) pl)
                   (js_add (offset opts) (Fin 1)))] @
           map Submit jobs @ [LogError ''Error: '' ex]
       \<and> submitted (main e opts) = jobs
       \<and> exits (main e opts) = []"
proof -
  have p: "promise_all (map (job_promise e) jobs) (settle_order e) = AllRejected ex"
    by (rule promise_all_one_rejected [where i = i]) (use assms(5-7) in simp_all)
  have c: "main_catch e opts ex = [LogError ''Error: '' ex]"
    using assms(8) by (simp add: main_catch_def)
  have settles: "\<forall>j \<in> set jobs. job_promise e j \<noteq> Pending"
  proof
    fix j
    assume "j \<in> set jobs"
    then obtain n where n: "n < length jobs" "j = jobs ! n" by (auto simp: in_set_conv_nth)
    show "job_promise e j \<noteq> Pending"
    proof (cases "n = i")
      case True
      with n assms(6) show ?thesis by simp
    next
      case False
      with n assms(7) have "is_resolved (job_promise e j)" by simp
      then show ?thesis by (cases "job_promise e j") simp_all
    qed
  qed
  have "0 < length jobs" using assms(5) by (cases jobs) simp_all
  then have k: "1 \<le> slots (concurrency opts) (length jobs)"
    by (rule slots_positive [OF assms(3)])
  let ?r = "batch_history e (slots (concurrency opts) (length jobs)) jobs"
  have h: "snd ?r = None \<and> set (fst ?r) = {0 ..< length jobs}"
    using batch_history_all [OF k settles] .
  then have l: "limited_promises e jobs (fst ?r) = map (job_promise e) jobs"
    by (intro limited_promises_all) simp
  have "promise_all (map (job_promise e) jobs) (fst ?r) = AllRejected ex"
    by (rule promise_all_one_rejected [where i = i]) (use assms(5-7) in simp_all)
  then have a: "await_all e opts jobs = [LogError ''Error: '' ex]"
    using l h c by (simp add: await_all_def Let_def uncaught_effect_def)
  have m: "main e opts =
           [Log (PlaylistFound (playlist_title pl) (estimated_items pl)),
            MkDirByPath (batch_dir e opts pl),
            Log (DownloadingOnly (actualLimit (limit opts) (offset opts) pl)
                   (js_add (offset opts) (Fin 1)))] @
           map Submit jobs @ [LogError ''Error: '' ex]"
    using main_scheduled [OF assms(1-3)] a assms(4) by simp
  have s: "submitted (main e opts) = jobs"
    using submitted_main [OF assms(1-3)] assms(4) by simp
  have x: "exits (main e opts) = []"
    unfolding m by (simp add: exits_append exits_map_Submit)
  from p m s x show ?thesis by simp
qed

lemma one_failure_jobs:
  "scheduled_jobs one_failure_env flags abcde ''./'' =
     [\<lparr>title = ''A'', url = ''a'', outputDir = ''./''\<rparr>, \<lparr>title = ''B'', url = ''b'', outputDir = ''./''\<rparr>,
      \<lparr>title = ''C'', url = ''c'', outputDir = ''./''\<rparr>, \<lparr>title = ''D'', url = ''d'', outputDir = ''./''\<rparr>,
      \<lparr>title = ''E'', url = ''e'', outputDir = ''./''\<rparr>]"
  by (simp add: scheduled_jobs_def selected_items_def actualLimit_def slice_def flags_def
        abcde_def of_nat_js_def js_sub_def js_trunc_def one_failure_env_def quiet_env_def no_slash_def)

lemma one_failure_promise:
  "job_promise one_failure_env \<lparr>title = t, url = u, outputDir = dir\<rparr> =
     (if u = ''b'' then Rejected boom else Resolved (''Finished downloading '' @ t))"
  by (simp add: job_promise_def job_events_def one_failure_env_def quiet_env_def opened_def
        breaking_b_def downloadVideo_def on_event_def settle_promise_def)

theorem one_failure_witness:
  "main one_failure_env flags =
     [Log (PlaylistFound ''Letters'' 5), MkDirByPath ''./'', Log (DownloadingOnly (Fin 5) (Fin 1)),
      Submit \<lparr>title = ''A'', url = ''a'', outputDir = ''./''\<rparr>,
      Submit \<lparr>title = ''B'', url = ''b'', outputDir = ''./''\<rparr>,
      Submit \<lparr>title = ''C'', url = ''c'', outputDir = ''./''\<rparr>,
      Submit \<lparr>title = ''D'', url = ''d'', outputDir = ''./''\<rparr>,
      Submit \<lparr>title = ''E'', url = ''e'', outputDir = ''./''\<rparr>,
      LogError ''Error: '' boom]
   \<and> exits (main one_failure_env flags) = []"
proof -
  have pl: "getPLaylist (ytpl one_failure_env) (link flags) = Inr abcde"
    using resolver_PL [of abcde] by (simp add: one_failure_env_def quiet_env_def flags_def)
  have b: "batch_dir one_failure_env flags abcde = ''./''"
    by (simp add: batch_dir_def flags_def)
  have dir: "mkDirByPathSync (mkdirSync one_failure_env) (cwd one_failure_env)
               (batch_dir one_failure_env flags abcde) = Inr ''/home/u''"
    unfolding b using quiet_mkdir by (simp add: one_failure_env_def quiet_env_def)
  have conc: "valid_concurrency (concurrency flags)"
    by (simp add: flags_def valid_concurrency_def js_trunc_def)
  have jobs: "scheduled_jobs one_failure_env flags abcde ''./'' =
      scheduled_jobs one_failure_env flags abcde (batch_dir one_failure_env flags abcde)"
    by (simp add: b)
  have i: "1 < length (scheduled_jobs one_failure_env flags abcde ''./'')"
    by (simp add: one_failure_jobs)
  have r: "job_promise one_failure_env (scheduled_jobs one_failure_env flags abcde ''./'' ! 1) = Rejected boom"
    by (simp add: one_failure_jobs one_failure_promise)
  have o: "\<forall>n < length (scheduled_jobs one_failure_env flags abcde ''./''). n \<noteq> 1 \<longrightarrow>
             is_resolved (job_promise one_failure_env (scheduled_jobs one_failure_env flags abcde ''./'' ! n))"
    by (auto simp: one_failure_jobs one_failure_promise less_Suc_eq)
  have c: "\<not> code_is_404 boom" by (simp add: code_is_404_def boom_def)
  show ?thesis
    using one_failure [OF pl dir conc jobs i r o c, unfolded b one_failure_jobs]
    by (simp add: abcde_def flags_def actualLimit_def of_nat_js_def js_sub_def)
qed

theorem batch_result_counterexample:
  "promise_all (map (job_promise one_failure_env) (submitted (main one_failure_env flags)))
      (settle_order one_failure_env) = AllRejected boom
   \<and> Log (Finished 5) \<notin> set (main one_failure_env flags)"
  by code_simp

section \<open>The promise of a download\<close>

lemma on_event_quiet:
  "\<not> terminal ev \<Longrightarrow> result (on_event t d ev) = result d"
  by (cases ev) (simp_all add: on_event_def split: option.splits)

lemma on_event_settled: "result d \<noteq> Pending \<Longrightarrow> result (on_event t d ev) = result d"
  by (cases ev) (simp_all add: on_event_def settle_promise_def split: option.splits)

lemma on_event_killed: "uncaught d \<noteq> None \<Longrightarrow> on_event t d ev = d"
  by (auto simp: on_event_def)

lemma fold_settled:
  "result d \<noteq> Pending \<Longrightarrow> result (foldl (on_event t) d evs) = result d"
  by (induction evs arbitrary: d) (simp_all add: on_event_settled)

lemma fold_quiet:
  "\<forall>ev \<in> set evs. \<not> terminal ev \<Longrightarrow> result (foldl (on_event t) d evs) = result d"
  by (induction evs arbitrary: d) (simp_all add: on_event_quiet)

lemma fold_killed:
  "uncaught d \<noteq> None \<Longrightarrow> foldl (on_event t) d evs = d"
  by (induction evs arbitrary: d) (simp_all add: on_event_killed)

text \<open>
  What the handlers of the download stream do: while the process lives, the first
  \<^verbatim>\<open>end\<close> or \<^verbatim>\<open>error\<close> event of the download stream settles the promise,
  and nothing after it changes the promise.
\<close>

lemma downloadVideo_settles:
  assumes "\<forall>ev \<in> set pre. \<not> terminal ev \<and> \<not> file_event ev"
  shows "result (downloadVideo j (pre @ End # post)) = Resolved (''Finished downloading '' @ title j)"
    and "result (downloadVideo j (pre @ Error ex # post)) = Rejected ex"
    and "result (downloadVideo j pre) = Pending"
proof -
  let ?init = "\<lparr>result = Pending, starttime = None, status = Spinning,
               spin_text = ''Downloading '' @ title j, uncaught = None\<rparr>"
  let ?d = "foldl (on_event (title j)) ?init pre"
  have q: "\<forall>ev \<in> set pre. \<not> terminal ev" and f: "\<forall>ev \<in> set pre. \<not> file_event ev"
    using assms by auto
  have p: "result ?d = Pending"
    using fold_quiet [OF q, where t = "title j" and d = ?init] by simp
  have u: "uncaught ?d = None"
    using fold_not_killed [OF f, where t = "title j" and d = ?init] by simp
  have a: "result (on_event (title j) ?d End) = Resolved (''Finished downloading '' @ title j)"
    using p u by (simp add: on_event_def settle_promise_def)
  have b: "result (on_event (title j) ?d (Error ex)) = Rejected ex"
    using p u by (simp add: on_event_def settle_promise_def)
  show "result (downloadVideo j (pre @ End # post)) = Resolved (''Finished downloading '' @ title j)"
    unfolding downloadVideo_def
    using fold_settled [of "on_event (title j) ?d End" "title j" post] a by simp
  show "result (downloadVideo j (pre @ Error ex # post)) = Rejected ex"
    unfolding downloadVideo_def
    using fold_settled [of "on_event (title j) ?d (Error ex)" "title j" post] b by simp
  show "result (downloadVideo j pre) = Pending"
    unfolding downloadVideo_def using p by simp
qed

text \<open>
  An \<^verbatim>\<open>error\<close> event of the file stream, coming before the download stream has
  ended, kills the process and leaves the promise pending, whatever the download
  stream emits afterwards.
\<close>

lemma downloadVideo_killed:
  assumes "\<forall>ev \<in> set pre. \<not> terminal ev"
  shows "result (downloadVideo j (pre @ FileError ex # post)) = Pending"
    and "uncaught (downloadVideo j (pre @ FileError ex # post)) \<noteq> None"
proof -
  let ?init = "\<lparr>result = Pending, starttime = None, status = Spinning,
               spin_text = ''Downloading '' @ title j, uncaught = None\<rparr>"
  let ?d = "foldl (on_event (title j)) ?init pre"
  let ?k = "on_event (title j) ?d (FileError ex)"
  have p: "result ?d = Pending"
    using fold_quiet [OF assms, where t = "title j" and d = ?init] by simp
  have k: "uncaught ?k \<noteq> None"
    by (cases "uncaught ?d") (simp_all add: on_event_def)
  have r: "result ?k = Pending"
    using p on_event_quiet [of "FileError ex" "title j" ?d] by simp
  have "foldl (on_event (title j)) ?k post = ?k"
    using k by (rule fold_killed)
  then have e: "downloadVideo j (pre @ FileError ex # post) = ?k"
    by (simp add: downloadVideo_def)
  show "result (downloadVideo j (pre @ FileError ex # post)) = Pending"
    unfolding e using r .
  show "uncaught (downloadVideo j (pre @ FileError ex # post)) \<noteq> None"
    unfolding e using k .
qed

text \<open>
  With one slot and a first stream that never ends, the other jobs are never started:
  the run stops after the submissions.
\<close>

lemma queued_jobs_wait:
  "main hanging_env (flags\<lparr>concurrency := Fin 1\<rparr>) =
     [Log (PlaylistFound ''Letters'' 5), MkDirByPath ''./'', Log (DownloadingOnly (Fin 5) (Fin 1)),
      Submit \<lparr>title = ''A'', url = ''a'', outputDir = ''./''\<rparr>,
      Submit \<lparr>title = ''B'', url = ''b'', outputDir = ''./''\<rparr>,
      Submit \<lparr>title = ''C'', url = ''c'', outputDir = ''./''\<rparr>,
      Submit \<lparr>title = ''D'', url = ''d'', outputDir = ''./''\<rparr>,
      Submit \<lparr>title = ''E'', url = ''e'', outputDir = ''./''\<rparr>]
   \<and> limited_promises hanging_env (submitted (main hanging_env (flags\<lparr>concurrency := Fin 1\<rparr>)))
       (fst (batch_history hanging_env 1 (submitted (main hanging_env (flags\<lparr>concurrency := Fin 1\<rparr>))))) =
       [Pending, Pending, Pending, Pending, Pending]"
  by code_simp

text \<open>
  C4 (the code at the failing input). With \<^verbatim>\<open>-o f\<close>, where \<^verbatim>\<open>f\<close> is a
  file, the directory is taken as existing and the five jobs are submitted; the file
  \<^verbatim>\<open>f/A.mp4\<close> cannot be opened, the error of its stream is handled by nothing
  and ends the process with status 1. No promise of the batch has settled, and the
  events of the download stream that would have settled it come too late.
\<close>

theorem file_stream_error_abandons:
  "main file_in_the_way_env (flags\<lparr>output_flag := ''f''\<rparr>) =
     [Log (PlaylistFound ''Letters'' 5), MkDirByPath ''f'', Log (DownloadingOnly (Fin 5) (Fin 1)),
      Submit \<lparr>title = ''A'', url = ''a'', outputDir = ''f''\<rparr>,
      Submit \<lparr>title = ''B'', url = ''b'', outputDir = ''f''\<rparr>,
      Submit \<lparr>title = ''C'', url = ''c'', outputDir = ''f''\<rparr>,
      Submit \<lparr>title = ''D'', url = ''d'', outputDir = ''f''\<rparr>,
      Submit \<lparr>title = ''E'', url = ''e'', outputDir = ''f''\<rparr>,
      Uncaught (Err (ErrnoCode ENOTDIR) ''open f/A.mp4'' None)]
   \<and> map (job_promise file_in_the_way_env)
        (submitted (main file_in_the_way_env (flags\<lparr>output_flag := ''f''\<rparr>))) =
       [Pending, Pending, Pending, Pending, Pending]
   \<and> result (downloadVideo \<lparr>title = ''A'', url = ''a'', outputDir = ''f''\<rparr>
        [FileError (Err (ErrnoCode ENOTDIR) ''open f/A.mp4'' None), Response 0, End]) = Pending
   \<and> exit_status (main file_in_the_way_env (flags\<lparr>output_flag := ''f''\<rparr>)) = 1"
  by code_simp

section \<open>The progress line\<close>

lemma digits_0: "digits 0 = ''0''"
  by (simp add: digits.simps)

lemma toFixed2_0: "toFixed2 (Fin 0) = ''0.00''"
  by (simp add: digits_0)

text \<open>
  C5 (amended). On a progress tick whose total is zero or unknown (\<^verbatim>\<open>NaN\<close>) the
  handler divides all the same: the percentage is written as \<^verbatim>\<open>NaN\<close> (unknown
  total, or nothing downloaded yet) or as \<^verbatim>\<open>Infinity\<close>, and the remaining time
  as \<^verbatim>\<open>NaN\<close> or as the negated elapsed minutes. Nothing is reported as
  unavailable.
\<close>

theorem progress_text_no_total:
  assumes "total' = Fin 0 \<or> total' = NaN" and "0 \<le> d"
  shows "progress_text downloadText now st (Fin d) total' =
           downloadText
           @ '', Completed: '' @ (if total' = NaN \<or> d = 0 then ''NaN'' else ''Infinity'') @ ''%''
           @ '', '' @ toFixed2 (Fin (d / 1024 / 1024)) @ ''MB of ''
           @ (if total' = NaN then ''NaN'' else ''0.00'') @ ''MB''
           @ '', estimated time left: ''
           @ (case st of
                None \<Rightarrow> ''NaN''
              | Some s \<Rightarrow> if total' = NaN \<or> d = 0 then ''NaN''
                         else toFixed2 (Fin (- (of_int (now - s) / 1000 / 60))))
           @ ''minutes''"
proof (cases st)
  case None
  with assms show ?thesis
    by (auto simp: progress_text_def to_number_def of_int_js_def js_sub_def toFixed2_0
          simp del: toFixed2.simps(4))
next
  case (Some s)
  with assms show ?thesis
    by (auto simp: progress_text_def to_number_def of_int_js_def js_sub_def toFixed2_0
          simp del: toFixed2.simps(4))
qed

theorem progress_text_no_total_witness:
  "progress_text ''Downloading T'' 61000 (Some 1000) (Fin 1024) (Fin 0) =
     ''Downloading T, Completed: Infinity%, 0.00MB of 0.00MB, estimated time left: -1.00minutes''"
proof -
  have z: "Fin 0 = Fin 0 \<or> Fin 0 = NaN" by simp
  have d: "(0::rat) \<le> 1024" by simp
  show ?thesis
    unfolding progress_text_no_total [OF z d, of "''Downloading T''" 61000 "Some 1000"]
    by code_simp
qed

theorem progress_nan_counterexample:
  "spin_text (downloadVideo \<lparr>title = ''T'', url = ''u'', outputDir = ''./''\<rparr>
      [Response 1000, Progress 61000 (Fin 0) (Fin 0) (Fin 0)]) =
     ''Downloading T, Completed: NaN%, 0.00MB of 0.00MB, estimated time left: NaNminutes''"
  by (simp add: downloadVideo_def on_event_def progress_text_def to_number_def of_int_js_def
        js_sub_def toFixed2_0 digits_0)

section \<open>The fallback to a single item\<close>

text \<open>
  C6. When the playlist resolver fails on a non-empty link, \<open>main\<close> asks
  \<^verbatim>\<open>ytdl.getBasicInfo\<close> for the link exactly once and submits nothing to the
  limiter; the one download of the item is started directly, once its metadata and
  the output directory are there, and no other download is started. On the empty link
  the run consists of writing the error to the console: no metadata call, no download.
\<close>

theorem fallback_single_item:
  "(link opts \<noteq> [] \<and> ytpl e (link opts) = Inl ex \<longrightarrow>
      basic_info_calls (main e opts) = [link opts]
    \<and> submitted (main e opts) = []
    \<and> direct (main e opts) =
        (case getBasicInfo e (link opts) of
           Inl _ \<Rightarrow> []
         | Inr info \<Rightarrow>
             (case mkDirByPathSync (mkdirSync e) (cwd e) (output_flag opts) of
                Inl _ \<Rightarrow> []
              | Inr _ \<Rightarrow> [\<lparr>title = video_title info, url = video_url info,
                           outputDir = output_flag opts\<rparr>])))
   \<and> (link opts = [] \<longrightarrow>
      main e opts = [LogError ''Error: '' (Err (NumCode 400) ''No playlist link provided'' None)]
    \<and> basic_info_calls (main e opts) = [] \<and> submitted (main e opts) = []
    \<and> direct (main e opts) = [])"
proof (intro conjI impI)
  assume h: "link opts \<noteq> [] \<and> ytpl e (link opts) = Inl ex"
  then have m: "main e opts =
      main_catch e opts (Err (NumCode 404) ''Playlist link or id not found'' (Some ex))"
    using main_not_found by blast
  show "basic_info_calls (main e opts) = [link opts]"
    unfolding m
    by (simp add: main_catch_def code_is_404_def Let_def
          split: sum.splits promise.splits option.splits)
  show "submitted (main e opts) = []"
    unfolding m by (rule submitted_main_catch)
  show "direct (main e opts) =
        (case getBasicInfo e (link opts) of
           Inl _ \<Rightarrow> []
         | Inr info \<Rightarrow>
             (case mkDirByPathSync (mkdirSync e) (cwd e) (output_flag opts) of
                Inl _ \<Rightarrow> []
              | Inr _ \<Rightarrow> [\<lparr>title = video_title info, url = video_url info,
                           outputDir = output_flag opts\<rparr>]))"
    unfolding m
    by (simp add: main_catch_def code_is_404_def Let_def
          split: sum.splits promise.splits option.splits)
next
  assume h: "link opts = []"
  show "main e opts = [LogError ''Error: '' (Err (NumCode 400) ''No playlist link provided'' None)]"
    using h by (rule main_no_link)
  show "basic_info_calls (main e opts) = []" using main_no_link [OF h, of e] by simp
  show "submitted (main e opts) = []" using main_no_link [OF h, of e] by simp
  show "direct (main e opts) = []" using main_no_link [OF h, of e] by simp
qed

theorem fallback_single_item_witness:
  "basic_info_calls (main quiet_env (flags\<lparr>link := ''vid''\<rparr>)) = [''vid'']
   \<and> submitted (main quiet_env (flags\<lparr>link := ''vid''\<rparr>)) = []
   \<and> length (direct (main quiet_env (flags\<lparr>link := ''vid''\<rparr>))) = 1
   \<and> main quiet_env (flags\<lparr>link := []\<rparr>) =
       [LogError ''Error: '' (Err (NumCode 400) ''No playlist link provided'' None)]"
  using fallback_single_item [of "flags\<lparr>link := ''vid''\<rparr>" quiet_env "Err NoCode ''Unable to find a id'' None"]
    fallback_single_item [of "flags\<lparr>link := []\<rparr>" quiet_env "Err NoCode ''Unable to find a id'' None"]
    quiet_mkdir
  by (simp add: flags_def quiet_env_def resolver_def basic_info_def)

section \<open>The exit status\<close>

text \<open>
  C7 (the code at the failing inputs). On the empty link, and when the directory of the
  batch cannot be created, \<open>main\<close> writes the error and returns without calling
  \<^verbatim>\<open>process.exit\<close>: the process ends with status 0. A failing fallback, whose
  handler does call \<^verbatim>\<open>process.exit(1)\<close>, ends with status 1.
\<close>

theorem exit_status_fatal:
  "main quiet_env (flags\<lparr>link := []\<rparr>) =
     [LogError ''Error: '' (Err (NumCode 400) ''No playlist link provided'' None)]
   \<and> exit_status (main quiet_env (flags\<lparr>link := []\<rparr>)) = 0
   \<and> main denied_env flags =
     [Log (PlaylistFound ''Letters'' 5), MkDirByPath ''./'',
      LogError ''Error: '' (Err (ErrnoCode EACCES) ''mkdir /home/u'' None)]
   \<and> exit_status (main denied_env flags) = 0
   \<and> exit_status (main quiet_env (flags\<lparr>link := ''nothing''\<rparr>)) = 1
   \<and> exit_status (main quiet_env flags) = 0"
  by code_simp

section \<open>Errors while creating the directory\<close>

lemma mkdir_fold_exists:
  "\<forall>p. mk p = None \<or> mk p = Some EEXIST \<Longrightarrow>
     \<exists>d. foldl (mkdir_round mk wd t) (Inr parent) segs = Inr d"
proof (induction segs arbitrary: parent)
  case Nil
  then show ?case by simp
next
  case (Cons child segs)
  let ?cur = "path_resolve wd [''.'', parent, child]"
  have "mkdir_round mk wd t (Inr parent) child = Inr ?cur"
    using Cons.prems [rule_format, of ?cur] by (auto simp: mkdir_round_def Let_def)
  then show ?case using Cons.IH [OF Cons.prems, of ?cur] by simp
qed

lemma mkdir_round_code:
  assumes "\<forall>e0. acc = Inl e0 \<longrightarrow> \<not> code_is_404 e0"
    and "mkdir_round mk wd t acc child = Inl ex"
  shows "\<not> code_is_404 ex"
proof (cases acc)
  case (Inl e0)
  with assms show ?thesis by (simp add: mkdir_round_def)
next
  case (Inr parent)
  with assms(2) show ?thesis
    by (auto simp: mkdir_round_def Let_def code_is_404_def system_error_def
          split: option.splits if_splits)
qed

lemma mkdir_fold_code:
  "\<forall>e0. acc = Inl e0 \<longrightarrow> \<not> code_is_404 e0 \<Longrightarrow>
     foldl (mkdir_round mk wd t) acc segs = Inl ex \<Longrightarrow> \<not> code_is_404 ex"
proof (induction segs arbitrary: acc)
  case Nil
  then show ?case by simp
next
  case (Cons child segs)
  have "\<forall>e0. mkdir_round mk wd t acc child = Inl e0 \<longrightarrow> \<not> code_is_404 e0"
    using mkdir_round_code [OF Cons.prems(1)] by blast
  then show ?case using Cons.IH [of "mkdir_round mk wd t acc child"] Cons.prems(2) by simp
qed

lemma mkDirByPathSync_code: "mkDirByPathSync mk wd t = Inl ex \<Longrightarrow> \<not> code_is_404 ex"
  unfolding mkDirByPathSync_def Let_def
  using mkdir_fold_code [of "Inr (if isAbsolute t then ''/'' else [])" mk wd t "split_sep t" ex]
  by simp

lemma submitted_only_after_mkdir:
  assumes "j \<in> set (submitted (main e opts))"
  shows "\<exists>d. mkDirByPathSync (mkdirSync e) (cwd e) (outputDir j) = Inr d"
proof (cases "getPLaylist (ytpl e) (link opts)")
  case (Inl ex)
  with assms show ?thesis by (simp add: main_def submitted_main_catch)
next
  case (Inr pl)
  show ?thesis
  proof (cases "mkDirByPathSync (mkdirSync e) (cwd e) (batch_dir e opts pl)")
    case (Inl ex)
    with assms Inr show ?thesis by (simp add: main_def Let_def submitted_main_catch)
  next
    case dir: (Inr d)
    show ?thesis
    proof (cases "valid_concurrency (concurrency opts)")
      case False
      with assms Inr dir show ?thesis by (simp add: main_def Let_def submitted_main_catch)
    next
      case True
      have "j \<in> set (scheduled_jobs e opts pl (batch_dir e opts pl))"
        using assms submitted_main [OF Inr dir True] by simp
      then have "outputDir j = batch_dir e opts pl"
        using scheduled_jobs_sanitized by blast
      with dir show ?thesis by simp
    qed
  qed
qed

text \<open>
  C8 (amended). \<open>main\<close> submits a job only after \<open>mkDirByPathSync\<close> has returned for
  the directory of the job, and it returns only with the resolved directory created or
  reported as existing. An answer \<^verbatim>\<open>EEXIST\<close> is never an error. Any other error
  of a segment ends the creation with an exception, and then \<open>main\<close> writes the error
  and submits nothing, except that \<^verbatim>\<open>EACCES\<close>, \<^verbatim>\<open>EPERM\<close> and
  \<^verbatim>\<open>EISDIR\<close> are passed over on every path but the resolved target itself.
\<close>

theorem mkDirByPathSync_errors:
  "(j \<in> set (submitted (main e opts)) \<longrightarrow>
      mkDirByPathSync (mkdirSync e) (cwd e) (outputDir j) = Inr (path_resolve (cwd e) [outputDir j])
    \<and> (mkdirSync e (path_resolve (cwd e) [outputDir j]) = None
       \<or> mkdirSync e (path_resolve (cwd e) [outputDir j]) = Some EEXIST))
   \<and> ((\<forall>p. mk p = None \<or> mk p = Some EEXIST) \<longrightarrow>
        mkDirByPathSync mk wd t = Inr (path_resolve wd [t]))
   \<and> (split_sep t = pre @ child # post
      \<and> foldl (mkdir_round mk wd t) (Inr (if isAbsolute t then ''/'' else [])) pre = Inr parentDir
      \<and> mk (path_resolve wd [''.'', parentDir, child]) = Some c \<and> c \<noteq> EEXIST \<longrightarrow>
        (if c \<in> {EACCES, EPERM, EISDIR} \<and> path_resolve wd [''.'', parentDir, child] \<noteq> path_resolve wd [t]
         then mkDirByPathSync mk wd t =
                foldl (mkdir_round mk wd t) (Inr (path_resolve wd [''.'', parentDir, child])) post
         else \<exists>ex. mkDirByPathSync mk wd t = Inl ex))
   \<and> (getPLaylist (ytpl e) (link opts) = Inr pl
      \<and> mkDirByPathSync (mkdirSync e) (cwd e) (batch_dir e opts pl) = Inl ex \<longrightarrow>
        main e opts =
          [Log (PlaylistFound (playlist_title pl) (estimated_items pl)),
           MkDirByPath (batch_dir e opts pl), LogError ''Error: '' ex])"
proof (intro conjI impI)
  assume "j \<in> set (submitted (main e opts))"
  then obtain d where d: "mkDirByPathSync (mkdirSync e) (cwd e) (outputDir j) = Inr d"
    using submitted_only_after_mkdir by blast
  show "mkDirByPathSync (mkdirSync e) (cwd e) (outputDir j) = Inr (path_resolve (cwd e) [outputDir j])"
    using d mkDirByPathSync_path [OF d] by simp
  show "mkdirSync e (path_resolve (cwd e) [outputDir j]) = None
       \<or> mkdirSync e (path_resolve (cwd e) [outputDir j]) = Some EEXIST"
    using mkDirByPathSync_last [OF d] mkDirByPathSync_path [OF d] by simp
next
  assume "\<forall>p. mk p = None \<or> mk p = Some EEXIST"
  then obtain d where d: "mkDirByPathSync mk wd t = Inr d"
    unfolding mkDirByPathSync_def Let_def using mkdir_fold_exists by blast
  then show "mkDirByPathSync mk wd t = Inr (path_resolve wd [t])"
    using mkDirByPathSync_path [OF d] by simp
next
  let ?cur = "path_resolve wd [''.'', parentDir, child]"
  assume h: "split_sep t = pre @ child # post
      \<and> foldl (mkdir_round mk wd t) (Inr (if isAbsolute t then ''/'' else [])) pre = Inr parentDir
      \<and> mk ?cur = Some c \<and> c \<noteq> EEXIST"
  then have f: "mkDirByPathSync mk wd t =
      foldl (mkdir_round mk wd t) (mkdir_round mk wd t (Inr parentDir) child) post"
    by (simp add: mkDirByPathSync_def)
  show "if c \<in> {EACCES, EPERM, EISDIR} \<and> ?cur \<noteq> path_resolve wd [t]
        then mkDirByPathSync mk wd t = foldl (mkdir_round mk wd t) (Inr ?cur) post
        else \<exists>ex. mkDirByPathSync mk wd t = Inl ex"
  proof (cases "c \<in> {EACCES, EPERM, EISDIR} \<and> ?cur \<noteq> path_resolve wd [t]")
    case True
    then have "mkdir_round mk wd t (Inr parentDir) child = Inr ?cur"
      using h by (auto simp: mkdir_round_def Let_def)
    with True f show ?thesis by simp
  next
    case False
    then have "\<exists>ex. mkdir_round mk wd t (Inr parentDir) child = Inl ex"
      using h by (auto simp: mkdir_round_def Let_def)
    with False f show ?thesis by (auto simp: mkdir_round_Inl)
  qed
next
  assume h: "getPLaylist (ytpl e) (link opts) = Inr pl
      \<and> mkDirByPathSync (mkdirSync e) (cwd e) (batch_dir e opts pl) = Inl ex"
  then have "\<not> code_is_404 ex" using mkDirByPathSync_code by blast
  with h show "main e opts =
          [Log (PlaylistFound (playlist_title pl) (estimated_items pl)),
           MkDirByPath (batch_dir e opts pl), LogError ''Error: '' ex]"
    by (simp add: main_def Let_def main_catch_def)
qed

theorem intermediate_error_counterexample:
  "root_is_dir ''/'' = Some EISDIR
   \<and> mkDirByPathSync root_is_dir ''/home/u'' ''/out'' = Inr ''/out''
   \<and> map outputDir (submitted (main mac_env (flags\<lparr>output_flag := ''/out''\<rparr>))) =
       [''/out'', ''/out'', ''/out'', ''/out'', ''/out'']"
  by code_simp
theorem mkDirByPathSync_errors_witness:
  "mkDirByPathSync created ''/home/u'' ''out/x'' = Inr ''/home/u/out/x''
   \<and> mkDirByPathSync (mkdirSync quiet_env) (cwd quiet_env) ''./'' = Inr ''/home/u''
   \<and> mkDirByPathSync root_is_dir ''/home/u'' ''/out'' =
       foldl (mkdir_round root_is_dir ''/home/u'' ''/out'') (Inr ''/'') [''out'']
   \<and> main denied_env flags =
       [Log (PlaylistFound ''Letters'' 5), MkDirByPath ''./'',
        LogError ''Error: '' (Err (ErrnoCode EACCES) ''mkdir /home/u'' None)]"
proof -
  have a: "\<forall>p. created p = None \<or> created p = Some EEXIST"
    by (simp add: created_def)
  have r: "path_resolve ''/home/u'' [''out/x''] = ''/home/u/out/x''"
    by code_simp
  have one: "mkDirByPathSync created ''/home/u'' ''out/x'' = Inr ''/home/u/out/x''"
    using mkDirByPathSync_errors [where mk = created and wd = "''/home/u''" and t = "''out/x''"] a r
    by simp
  have j: "\<lparr>title = ''A'', url = ''a'', outputDir = ''./''\<rparr> \<in> set (submitted (main quiet_env flags))"
    by code_simp
  have q: "path_resolve (cwd quiet_env) [''./''] = ''/home/u''"
    by code_simp
  have two: "mkDirByPathSync (mkdirSync quiet_env) (cwd quiet_env) ''./'' = Inr ''/home/u''"
    using mkDirByPathSync_errors [where e = quiet_env and opts = flags
        and j = "\<lparr>title = ''A'', url = ''a'', outputDir = ''./''\<rparr>"] j q
    by simp
  have s: "split_sep ''/out'' = [] @ [] # [''out'']
      \<and> foldl (mkdir_round root_is_dir ''/home/u'' ''/out'')
          (Inr (if isAbsolute ''/out'' then ''/'' else [])) [] = Inr ''/''
      \<and> root_is_dir (path_resolve ''/home/u'' [''.'', ''/'', []]) = Some EISDIR \<and> EISDIR \<noteq> EEXIST"
    by code_simp
  have n: "EISDIR \<in> {EACCES, EPERM, EISDIR}
      \<and> path_resolve ''/home/u'' [''.'', ''/'', []] \<noteq> path_resolve ''/home/u'' [''/out'']"
    by code_simp
  have c: "path_resolve ''/home/u'' [''.'', ''/'', []] = ''/''"
    by code_simp
  have three: "mkDirByPathSync root_is_dir ''/home/u'' ''/out'' =
       foldl (mkdir_round root_is_dir ''/home/u'' ''/out'') (Inr ''/'') [''out'']"
    using mkDirByPathSync_errors [where mk = root_is_dir and wd = "''/home/u''" and t = "''/out''"
        and pre = "[]" and child = "[]" and post = "[''out'']" and parentDir = "''/''" and c = EISDIR]
      s n
    unfolding c by presburger
  have p: "getPLaylist (ytpl denied_env) (link flags) = Inr abcde
      \<and> mkDirByPathSync (mkdirSync denied_env) (cwd denied_env) (batch_dir denied_env flags abcde) =
          Inl (Err (ErrnoCode EACCES) ''mkdir /home/u'' None)"
    by code_simp
  have b: "batch_dir denied_env flags abcde = ''./''"
    by code_simp
  have four: "main denied_env flags =
       [Log (PlaylistFound ''Letters'' 5), MkDirByPath ''./'',
        LogError ''Error: '' (Err (ErrnoCode EACCES) ''mkdir /home/u'' None)]"
    using mkDirByPathSync_errors [where e = denied_env and opts = flags and pl = abcde
        and ex = "Err (ErrnoCode EACCES) ''mkdir /home/u'' None"] p
    unfolding b by (simp add: abcde_def)
  from one two three four show ?thesis by simp
qed

section \<open>The file of a download\<close>

text \<open>
  C9 (the code at the failing input). The jobs of a playlist carry the sanitized title
  of their item; the job of the single-item path carries the title as the metadata
  call returned it. For the video titled \<^verbatim>\<open>AC/DC\<close> the file is
  \<^verbatim>\<open>AC/DC.mp4\<close>, inside a directory \<^verbatim>\<open>AC\<close>, where the sanitized title
  gives \<^verbatim>\<open>ACDC.mp4\<close>.
\<close>

theorem fallback_title_not_sanitized:
  "direct (main quiet_env (flags\<lparr>link := ''vid''\<rparr>)) =
     [\<lparr>title = ''AC/DC'', url = ''v'', outputDir = ''./''\<rparr>]
   \<and> map destination (direct (main quiet_env (flags\<lparr>link := ''vid''\<rparr>))) = [''AC/DC.mp4'']
   \<and> path_join [''./'', sanitize quiet_env ''AC/DC'' @ ''.mp4''] = ''ACDC.mp4''"
  by code_simp

section \<open>The errors of getPLaylist\<close>

text \<open>
  C10. On a non-empty link every error of the playlist resolver, whatever it is,
  becomes the rejection with code 404 and the message
  \<^verbatim>\<open>Playlist link or id not found\<close>, and \<open>main\<close> then takes the single-item
  path, starting with the metadata call. Only the empty link is rejected with code
  400, on which \<open>main\<close> writes the error and makes no metadata call.
\<close>

theorem getPLaylist_errors:
  "(playlistLink \<noteq> [] \<and> resolve playlistLink = Inl ex \<longrightarrow>
      getPLaylist resolve playlistLink =
        Inl (Err (NumCode 404) ''Playlist link or id not found'' (Some ex))
    \<and> (ytpl e = resolve \<and> link opts = playlistLink \<longrightarrow>
         take 2 (main e opts) = [Log NotFoundTrying, GetBasicInfo playlistLink]))
   \<and> getPLaylist resolve [] = Inl (Err (NumCode 400) ''No playlist link provided'' None)
   \<and> (link opts = [] \<longrightarrow> GetBasicInfo [] \<notin> set (main e opts))"
proof (intro conjI impI)
  assume h: "playlistLink \<noteq> [] \<and> resolve playlistLink = Inl ex"
  then show "getPLaylist resolve playlistLink =
      Inl (Err (NumCode 404) ''Playlist link or id not found'' (Some ex))"
    by (simp add: getPLaylist_def)
  assume "ytpl e = resolve \<and> link opts = playlistLink"
  with h have "main e opts =
      main_catch e opts (Err (NumCode 404) ''Playlist link or id not found'' (Some ex))"
    using main_not_found [of opts e ex] by simp
  then show "take 2 (main e opts) = [Log NotFoundTrying, GetBasicInfo playlistLink]"
    using \<open>ytpl e = resolve \<and> link opts = playlistLink\<close>
    by (simp add: main_catch_def code_is_404_def)
next
  show "getPLaylist resolve [] = Inl (Err (NumCode 400) ''No playlist link provided'' None)"
    by (simp add: getPLaylist_def)
next
  assume "link opts = []"
  then show "GetBasicInfo [] \<notin> set (main e opts)"
    using main_no_link [of opts e] by simp
qed

theorem getPLaylist_errors_witness:
  "getPLaylist (resolver abcde) ''vid'' =
     Inl (Err (NumCode 404) ''Playlist link or id not found''
           (Some (Err NoCode ''Unable to find a id'' None)))
   \<and> take 2 (main quiet_env (flags\<lparr>link := ''vid''\<rparr>)) = [Log NotFoundTrying, GetBasicInfo ''vid'']
   \<and> GetBasicInfo [] \<notin> set (main quiet_env (flags\<lparr>link := []\<rparr>))"
  using getPLaylist_errors [of "''vid''" "resolver abcde" "Err NoCode ''Unable to find a id'' None"
      quiet_env "flags\<lparr>link := ''vid''\<rparr>"]
    getPLaylist_errors [of "''vid''" "resolver abcde" "Err NoCode ''Unable to find a id'' None"
      quiet_env "flags\<lparr>link := []\<rparr>"]
  by (simp add: flags_def quiet_env_def resolver_def)


end
